theory Spec2Isabelle
  imports Complex_Main
begin

unbundle bit_operations_syntax

chapter \<open>The model\<close>

section \<open>Exceptions\<close>

text \<open>
  Every Python exception the modelled code can raise is a value. A function that may raise
  returns \<open>exn + 'a\<close>, with \<open>Inl\<close> for the exception.
  \<open>InstrumentError\<close> stands for any exception raised inside the instrument driver
  (communication failure, acquisition timeout); \<open>AxisError\<close> and \<open>LinAlgError\<close> are numpy's.
\<close>

datatype exn =
    AssertionError
  | ValueError
  | IndexError
  | KeyError
  | AxisError
  | LinAlgError
  | UnboundLocalError
  | InstrumentError

text \<open>Sequencing of two steps, the second of which runs only if the first did not raise.\<close>

definition and_then :: "exn + 'a \<Rightarrow> ('a \<Rightarrow> exn + 'b) \<Rightarrow> exn + 'b" where
  "and_then r f = (case r of Inl e \<Rightarrow> Inl e | Inr v \<Rightarrow> f v)"

section \<open>processing.py\<close>

text \<open>
  The numerical routines compute on IEEE doubles. Where a property is stated "within
  numerical tolerance" (the rotation, the solution of the linear system) the routine is
  modelled over \<open>real\<close> and the tolerance is read as equality of the exact results. Where a
  property is about the very numbers returned (the normalised populations, the pivots that
  elimination tests for zero) every operation is rounded to a double. An array is the nested
  list the functions accept; axis 0 is the outer list.
\<close>

subsection \<open>Doubles\<close>

text \<open>
  A double is a real number; \<open>float64\<close> rounds a real to the nearest double, ties to the
  even significand, as every IEEE operation rounds its exact result: 53 significant bits,
  the last of them worth \<open>2 powi (e - 52)\<close> for a number between \<open>2 powi e\<close> and
  \<open>2 powi (e + 1)\<close>. Overflow and subnormal numbers are left out; the quantities rounded
  here (fractions between \<open>1/n\<close> and 1, entries of confusion matrices) are far from both.
\<close>

definition round_even :: "real \<Rightarrow> int" where
  "round_even y =
     (let f = \<lfloor>y\<rfloor>; r = y - of_int f
      in if r < 1 / 2 then f else if 1 / 2 < r then f + 1 else if even f then f else f + 1)"

definition float64 :: "real \<Rightarrow> real" where
  "float64 x =
     (if x = 0 then 0
      else let ulp = 2 powi (\<lfloor>log 2 \<bar>x\<bar>\<rfloor> - 52)
           in of_int (round_even (x / ulp)) * ulp)"

subsection \<open>\<open>rotate_IQ\<close>\<close>

text \<open>
  \<^verbatim>\<open>rot_matrix = [[cos a, -sin a], [sin a, cos a]]\<close>
  \<^verbatim>\<open>result = np.einsum('ij,j...->i...', rot_matrix, input_data)\<close>
  The contraction runs over axis 0 of the data, which therefore must have length 2 (row 0 is
  I, row 1 is Q); the trailing axes are carried along elementwise and appear here flattened
  into one list. A ragged or differently shaped input makes numpy raise ValueError. The
  advisory message printed for an angle outside \<open>[-2\<pi>, 2\<pi>]\<close> does not change the
  result and is left out.
\<close>

definition rot_matrix :: "real \<Rightarrow> real list list" where
  "rot_matrix angle = [[cos angle, - sin angle], [sin angle, cos angle]]"

definition einsum_row :: "real list \<Rightarrow> real list \<Rightarrow> real list \<Rightarrow> real list" where
  "einsum_row r I Q = map2 (\<lambda>x y. r ! 0 * x + r ! 1 * y) I Q"

definition rotate_IQ :: "real list list \<Rightarrow> real \<Rightarrow> exn + real list list" where
  "rotate_IQ input_data angle =
     (case input_data of
        [I, Q] \<Rightarrow>
          if length I = length Q
          then Inr (map (\<lambda>r. einsum_row r I Q) (rot_matrix angle))
          else Inl ValueError
      | _ \<Rightarrow> Inl ValueError)"

text \<open>An IQ data array: two rows of equal length.\<close>

definition iq_shaped :: "real list list \<Rightarrow> bool" where
  "iq_shaped d = (case d of [I, Q] \<Rightarrow> length I = length Q | _ \<Rightarrow> False)"

subsection \<open>\<open>normalize_population\<close>\<close>

text \<open>
  A two-dimensional integer array as numpy holds it: a shape and the entries. An array of
  shape \<open>(0, x_points)\<close> has sweep points and no repetitions, which a list of rows cannot
  express, so the shape is explicit.
\<close>

record int_array2 =
  shape0 :: nat
  shape1 :: nat
  item :: "nat \<Rightarrow> nat \<Rightarrow> int"

text \<open>
  \<^verbatim>\<open>masked_data = np.ma.MaskedArray(input_data, mask=mask)\<close>
  \<^verbatim>\<open>result = [np.mean(masked_data==level, axis=axis) for level in range(n_levels)]\<close>
  With \<open>mask=None\<close> no entry is masked. The mean of the boolean array along axis 0 is, for
  each column, the number of unmasked entries equal to \<open>level\<close> divided, in doubles, by the
  number of unmasked entries; both counts are exact. When a column has no unmasked entry the
  division is \<open>0/0\<close>: the masked division masks the entry and leaves the numerator \<open>0.0\<close>
  under the mask, and \<open>np.array(result)\<close> returns what is under the mask.
\<close>

definition is_masked :: "(nat \<Rightarrow> nat \<Rightarrow> bool) option \<Rightarrow> nat \<Rightarrow> nat \<Rightarrow> bool" where
  "is_masked msk i j = (case msk of None \<Rightarrow> False | Some m \<Rightarrow> m i j)"

definition mean_axis0 ::
  "int_array2 \<Rightarrow> (nat \<Rightarrow> nat \<Rightarrow> bool) option \<Rightarrow> int \<Rightarrow> nat \<Rightarrow> real" where
  "mean_axis0 a msk level j =
     (let kept = filter (\<lambda>i. \<not> is_masked msk i j) [0..<shape0 a];
          hits = filter (\<lambda>i. item a i j = level) kept
      in if kept = [] then 0 else float64 (real (length hits) / real (length kept)))"

definition swap_axes :: "int_array2 \<Rightarrow> int_array2" where
  "swap_axes a = \<lparr>shape0 = shape1 a, shape1 = shape0 a, item = (\<lambda>i j. item a j i)\<rparr>"

definition swap_mask :: "(nat \<Rightarrow> nat \<Rightarrow> bool) option \<Rightarrow> (nat \<Rightarrow> nat \<Rightarrow> bool) option" where
  "swap_mask msk = map_option (\<lambda>m i j. m j i) msk"

text \<open>
  The result has one row per level in \<open>range(n_levels)\<close> and one entry per position of the
  remaining axis. Axis \<open>1\<close> (or \<open>-1\<close>) averages along the rows instead; any other axis of a
  two-dimensional array is numpy's AxisError, raised by the first \<open>np.mean\<close>, so not at all
  when \<open>range(n_levels)\<close> is empty.
\<close>

definition normalize_population ::
  "int_array2 \<Rightarrow> int \<Rightarrow> int \<Rightarrow> (nat \<Rightarrow> nat \<Rightarrow> bool) option \<Rightarrow> exn + real list list" where
  "normalize_population input_data n_levels axis msk =
     (if n_levels \<le> 0 then Inr []
      else if axis = 0 \<or> axis = - 2 then
        Inr (map (\<lambda>level. map (mean_axis0 input_data msk level) [0..<shape1 input_data])
               [0..n_levels - 1])
      else if axis = 1 \<or> axis = - 1 then
        Inr (map (\<lambda>level. map (mean_axis0 (swap_axes input_data) (swap_mask msk) level)
                            [0..<shape0 input_data])
               [0..n_levels - 1])
      else Inl AxisError)"







text \<open>The docstring's example, 4 repetitions of 3 points.\<close>

definition doc_labels :: int_array2 where
  "doc_labels = \<lparr>shape0 = 4, shape1 = 3,
                  item = (\<lambda>i j. [[0, 1, 0], [0, 0, 0], [0, 1, 0], [0, 1, 0]] ! i ! j)\<rparr>"

subsection \<open>\<open>find_most_distant_points\<close>\<close>

text \<open>
  \<^verbatim>\<open>distance_ij = np.linalg.norm(i-j)\<close>: the Euclidean norm of the difference of two rows.
\<close>

definition norm_diff :: "real list \<Rightarrow> real list \<Rightarrow> real" where
  "norm_diff i j = sqrt (\<Sum>d\<leftarrow>map2 (-) i j. d * d)"

text \<open>
  The double loop keeps \<open>max_distance\<close> and the pair \<open>point_i, point_j\<close>. The two names are
  bound only inside the \<open>if\<close>, always together, so the state holds them as one optional
  pair; \<open>None\<close> is "not yet bound". Returning unbound names is Python's UnboundLocalError.
\<close>

type_synonym distant_state = "real \<times> (real list \<times> real list) option"

definition distant_step :: "real list \<Rightarrow> distant_state \<Rightarrow> real list \<Rightarrow> distant_state" where
  "distant_step i st j =
     (let distance_ij = norm_diff i j
      in if distance_ij > fst st then (distance_ij, Some (i, j)) else st)"

definition distant_loop :: "real list list \<Rightarrow> distant_state" where
  "distant_loop input_data =
     foldl (\<lambda>st i. foldl (distant_step i) st input_data) (0, None) input_data"

definition find_most_distant_points :: "real list list \<Rightarrow> exn + real list \<times> real list" where
  "find_most_distant_points input_data =
     (case snd (distant_loop input_data) of
        None \<Rightarrow> Inl UnboundLocalError
      | Some (point_i, point_j) \<Rightarrow> Inr (point_i, point_j))"

subsection \<open>\<open>gmm_fit\<close> and \<open>autorotate_IQ\<close>\<close>

text \<open>
  \<^verbatim>\<open>gmm.fit(input_data.reshape(2,-1).T)\<close>; \<^verbatim>\<open>return gmm.means_, gmm.covariances_\<close>
  The fit itself is scikit-learn's and is a parameter \<open>sk_fit\<close> of the model: from the
  samples and the number of components to the means (one row per component) and the
  covariances, or an exception. \<open>reshape(2,-1)\<close> cuts the row-major entries into two
  halves and raises ValueError on an odd number of entries; \<open>.T\<close> pairs them up.
\<close>

type_synonym sk_fit = "(real \<times> real) list \<Rightarrow> int \<Rightarrow> exn + real list list \<times> real list"

definition reshape_2 :: "real list list \<Rightarrow> exn + (real \<times> real) list" where
  "reshape_2 input_data =
     (let flat = concat input_data; h = length flat div 2
      in if length flat mod 2 = 0 then Inr (zip (take h flat) (drop h flat))
         else Inl ValueError)"

definition gmm_fit :: "sk_fit \<Rightarrow> real list list \<Rightarrow> int \<Rightarrow> exn + real list list \<times> real list" where
  "gmm_fit fit input_data n_components =
     and_then (reshape_2 input_data) (\<lambda>samples. fit samples n_components)"

text \<open>\<open>np.arctan2(y, x)\<close>: the angle of the point \<open>(x, y)\<close>, in \<open>(-\<pi>, \<pi>]\<close>.\<close>

definition arctan2 :: "real \<Rightarrow> real \<Rightarrow> real" where
  "arctan2 y x =
     (if 0 < x then arctan (y / x)
      else if x < 0 then (if 0 \<le> y then arctan (y / x) + pi else arctan (y / x) - pi)
      else if 0 < y then pi / 2
      else if y < 0 then - (pi / 2)
      else 0)"

definition getitem :: "real list \<Rightarrow> nat \<Rightarrow> exn + real" where
  "getitem p k = (if k < length p then Inr (p ! k) else Inl IndexError)"

text \<open>
  \<^verbatim>\<open>means, covariances = gmm_fit(input_data, n_components=n_components)\<close>
  \<^verbatim>\<open>point_i, point_j = find_most_distant_points(means)\<close>
  \<^verbatim>\<open>angle = -1 * np.arctan2(point_i[1]-point_j[1], point_i[0]-point_j[0])\<close>
  \<^verbatim>\<open>result = rotate_IQ(input_data, angle)\<close>
\<close>

definition autorotate_IQ :: "sk_fit \<Rightarrow> real list list \<Rightarrow> int \<Rightarrow> exn + real list list" where
  "autorotate_IQ fit input_data n_components =
     and_then (gmm_fit fit input_data n_components) (\<lambda>(means, covariances).
     and_then (find_most_distant_points means) (\<lambda>(point_i, point_j).
     and_then (getitem point_i 1) (\<lambda>i1.
     and_then (getitem point_j 1) (\<lambda>j1.
     and_then (getitem point_i 0) (\<lambda>i0.
     and_then (getitem point_j 0) (\<lambda>j0.
       rotate_IQ input_data (- 1 * arctan2 (i1 - j1) (i0 - j0))))))))"

text \<open>A fit that puts every component at the same mean, whatever the samples.\<close>

definition same_means_fit :: sk_fit where
  "same_means_fit samples n_components =
     Inr (replicate (nat n_components) [1, 2], replicate (nat n_components) 1)"

subsection \<open>\<open>get_readout_fidelity\<close>\<close>

text \<open>
  \<^verbatim>\<open>fidelity = (1 + confusion_matrix[0, 0] - np.sum(confusion_matrix[0, 1:])) / 2\<close>
  The matrix is a list of rows. Indexing \<open>[0, 0]\<close> raises IndexError when there is no row
  0 or no column 0; the slice \<open>[0, 1:]\<close> is the rest of row 0 and may be empty.
\<close>

definition get_readout_fidelity :: "real list list \<Rightarrow> exn + real" where
  "get_readout_fidelity confusion_matrix =
     (case confusion_matrix of
        [] \<Rightarrow> Inl IndexError
      | row0 # _ \<Rightarrow>
          (case row0 of
             [] \<Rightarrow> Inl IndexError
           | m00 # rest \<Rightarrow> Inr ((1 + m00 - sum_list rest) / 2)))"

subsection \<open>\<open>numpy.linalg.solve\<close>\<close>

text \<open>
  \<open>np.linalg.solve(a, b)\<close> is library code. Its contract: \<open>a\<close> must be a square matrix
  (LinAlgError otherwise; ragged rows are already a ValueError of \<open>np.array\<close>), \<open>b\<close> must
  have as many rows as \<open>a\<close> (ValueError otherwise), and the result is the solution \<open>x\<close> of
  \<open>a x = b\<close>, column by column, found by elimination with row exchanges; LinAlgError is
  raised when the elimination meets a pivot that is exactly zero. No condition number is
  looked at.

  This section is the contract read in exact arithmetic, over the reals: it says what the
  call computes when rounding is left out, and is what the inverse law of
  \<open>correct_population\<close> is stated about. Over the reals a zero pivot is met exactly when
  the matrix is singular. Which matrices the library reports as singular is another matter,
  decided in doubles: that is the next section, and nothing about raising is concluded from
  this one.
\<close>

type_synonym equation = "real list \<times> real"

fun dot :: "real list \<Rightarrow> real list \<Rightarrow> real" where
  "dot (a # as) (x # xs) = a * x + dot as xs"
| "dot _ _ = 0"

definition lead :: "equation \<Rightarrow> real" where
  "lead e = (case fst e of [] \<Rightarrow> 0 | c # _ \<Rightarrow> c)"

text \<open>The first equation whose leading coefficient is not zero, and the others in order.\<close>

fun pivot :: "equation list \<Rightarrow> (equation \<times> equation list) option" where
  "pivot [] = None"
| "pivot (e # es) =
     (if lead e \<noteq> 0 then Some (e, es)
      else case pivot es of None \<Rightarrow> None | Some (p, rest) \<Rightarrow> Some (p, e # rest))"

text \<open>Subtract the multiple of the pivot row that removes the first unknown.\<close>

definition eliminate :: "equation \<Rightarrow> equation \<Rightarrow> equation" where
  "eliminate p e =
     (let f = lead e / lead p
      in (map2 (\<lambda>c a. c - f * a) (tl (fst e)) (tl (fst p)), snd e - f * snd p))"

fun gauss :: "nat \<Rightarrow> equation list \<Rightarrow> real list option" where
  "gauss 0 eqs = Some []"
| "gauss (Suc n) eqs =
     (case pivot eqs of
        None \<Rightarrow> None
      | Some (p, rest) \<Rightarrow>
          (case gauss n (map (eliminate p) rest) of
             None \<Rightarrow> None
           | Some xs \<Rightarrow> Some ((snd p - dot (tl (fst p)) xs) / lead p # xs)))"

definition is_square :: "real list list \<Rightarrow> bool" where
  "is_square a = (a \<noteq> [] \<and> list_all (\<lambda>row. length row = length a) a)"

definition is_ragged :: "real list list \<Rightarrow> bool" where
  "is_ragged a = (\<not> list_all (\<lambda>row. length row = length (hd a)) a)"

definition column_of :: "real list list \<Rightarrow> nat \<Rightarrow> real list" where
  "column_of b k = map (\<lambda>row. row ! k) b"

text \<open>
  \<open>b\<close> has \<open>k\<close> columns. The matrix is factorised once, which is where a singular matrix
  is found, whatever \<open>b\<close>; then every column of \<open>b\<close> is solved for.
\<close>

definition solve :: "real list list \<Rightarrow> real list list \<Rightarrow> nat \<Rightarrow> exn + real list list" where
  "solve a b k =
     (let n = length a in
      if is_ragged a then Inl ValueError
      else if \<not> is_square a then Inl LinAlgError
      else if length b \<noteq> n then Inl ValueError
      else if gauss n (zip a (replicate n 0)) = None then Inl LinAlgError
      else case those (map (\<lambda>j. gauss n (zip a (column_of b j))) [0..<k]) of
             None \<Rightarrow> Inl LinAlgError
           | Some sols \<Rightarrow> Inr (map (\<lambda>i. map (\<lambda>sol. sol ! i) sols) [0..<n]))"

subsection \<open>\<open>correct_population\<close>\<close>

text \<open>
  The data is a vector, of shape \<open>(M,)\<close>, or has more axes, of shape \<open>(M, \<dots>)\<close>; the second
  kind is held as its \<open>M\<close> rows with the trailing axes flattened, which is what
  \<open>reshape(input_data.shape[0], -1)\<close> makes of it. The reshape raises ValueError when
  \<open>M = 0\<close>, and so does \<open>np.array\<close> on ragged rows.
\<close>

datatype ndarray = Vector "real list" | Rows "real list list"

definition flat_data :: "ndarray \<Rightarrow> exn + real list list" where
  "flat_data input_data =
     (case input_data of
        Vector v \<Rightarrow> if v = [] then Inl ValueError else Inr (map (\<lambda>x. [x]) v)
      | Rows rs \<Rightarrow>
          if rs = [] \<or> is_ragged rs then Inl ValueError
          else Inr rs)"

definition reshape_like :: "ndarray \<Rightarrow> real list list \<Rightarrow> ndarray" where
  "reshape_like input_data rs =
     (case input_data of Vector v \<Rightarrow> Vector (concat rs) | Rows _ \<Rightarrow> Rows rs)"

text \<open>
  \<^verbatim>\<open>flat_data = input_data.reshape(input_data.shape[0], -1)\<close>
  \<^verbatim>\<open>result = np.linalg.solve(corr_matrix, flat_data).reshape(input_data.shape)\<close>
\<close>

definition correct_population :: "ndarray \<Rightarrow> real list list \<Rightarrow> exn + ndarray" where
  "correct_population input_data corr_matrix =
     and_then (flat_data input_data) (\<lambda>flat.
     and_then (solve corr_matrix flat (length (hd flat))) (\<lambda>result.
       Inr (reshape_like input_data result)))"

text \<open>The forward model \<open>M @ p\<close>: what is predicted for the actual population \<open>p\<close>.\<close>

definition matvec :: "real list list \<Rightarrow> real list \<Rightarrow> real list" where
  "matvec m p = map (\<lambda>row. dot row p) m"

text \<open>
  A square matrix is nonsingular when only the zero vector is mapped to zero, and singular
  when some other vector is.
\<close>

definition nonsingular :: "real list list \<Rightarrow> bool" where
  "nonsingular m =
     (is_square m \<and>
      (\<forall>v. length v = length m \<and> matvec m v = replicate (length m) 0
             \<longrightarrow> v = replicate (length m) 0))"

definition singular :: "real list list \<Rightarrow> bool" where
  "singular m =
     (is_square m \<and>
      (\<exists>v. length v = length m \<and> v \<noteq> replicate (length m) 0
            \<and> matvec m v = replicate (length m) 0))"





definition nearly_singular_prediction :: ndarray where
  "nearly_singular_prediction = Vector [1, 1 + 1 / (2 * 10 ^ 12)]"

subsection \<open>\<open>numpy.linalg.solve\<close> in doubles\<close>
















section \<open>calibration.py: the sequence compiler of \<open>Scan\<close>\<close>

subsection \<open>Data\<close>

text \<open>
  One entry of \<open>self.sequences\<close>: the dictionary dumped to the sequencer's JSON file. A
  Python dictionary that is written once and read by key is an association list here, in
  insertion order.
\<close>

record waveform_entry =
  data :: "real list"
  wf_index :: nat

record acquisition_entry =
  num_bins :: int
  index :: nat

record sequence =
  waveforms :: "(string \<times> waveform_entry) list"
  weights :: "(string \<times> waveform_entry) list"
  acquisitions :: "(string \<times> acquisition_entry) list"
  program :: string

text \<open>
  A column of a pulse DataFrame: its name, the pulse string of each row (\<open>column[qudit]\<close>
  raises KeyError for a row that is not there) and the attribute \<open>column.length\<close> in ns.
\<close>

record column =
  col_name :: string
  cell :: "string \<rightharpoonup> string"
  length_ns :: int

type_synonym dataframe = "column list"

text \<open>
  The entries of \<open>cfg.variables\<close> that the compiler reads. The times are stored in seconds
  as floats and enter the program only after conversion to an integer, so the record holds
  the converted integers: \<open>round(t * 1e9)\<close> for the three lengths and the heralding
  delay, \<open>int(np.ceil(t * 1e6))\<close> for the relaxation time.
\<close>

record variables =
  qubit_pulse_length_ns :: int
  resonator_pulse_length_ns :: int
  pulse_shape :: "string \<rightharpoonup> string"
  relaxation_time_us :: int
  heralding_delay_ns :: int

text \<open>
  \<open>qtrlb.utils.waveforms.get_waveform\<close> and \<open>qtrlb.utils.pulses.pulse_interpreter\<close> are
  not among the sources; they are parameters. \<open>pulse_interpreter\<close> receives the qudit, the
  pulse string, the length and, from \<open>add_readout\<close> only, the acquisition index, and gives
  the program text of the pulse or raises.
\<close>

record utils =
  get_waveform :: "int \<Rightarrow> string \<Rightarrow> exn + real list"
  pulse_interpreter :: "string \<Rightarrow> string \<Rightarrow> int \<Rightarrow> nat option \<Rightarrow> exn + string"

text \<open>The attributes of a \<open>Scan\<close> that \<open>make_sequence\<close> reads and writes.\<close>

record scan =
  qudits :: "string list"
  x_points :: int
  heralding_enable :: bool
  full_prepulse_df :: dataframe
  postpulse_df :: dataframe
  readout_df :: dataframe
  sequences :: "string \<rightharpoonup> sequence"

subsection \<open>Helpers\<close>

text \<open>A \<open>for\<close> loop whose body may raise: the first exception ends the loop.\<close>

fun for_each :: "('a \<Rightarrow> 's \<Rightarrow> exn + 's) \<Rightarrow> 'a list \<Rightarrow> 's \<Rightarrow> exn + 's" where
  "for_each body [] s = Inr s"
| "for_each body (x # xs) s = and_then (body x s) (for_each body xs)"

definition lookup :: "('k \<rightharpoonup> 'v) \<Rightarrow> 'k \<Rightarrow> exn + 'v" where
  "lookup m k = (case m k of None \<Rightarrow> Inl KeyError | Some v \<Rightarrow> Inr v)"

text \<open>\<open>str\<close> of a Python integer, as an f-string prints it.\<close>

fun digits :: "nat \<Rightarrow> string" where
  "digits n = (if n < 10 then [char_of (48 + n)] else digits (n div 10) @ [char_of (48 + n mod 10)])"

definition str_int :: "int \<Rightarrow> string" where
  "str_int i = (if i < 0 then CHR ''-'' # digits (nat (- i)) else digits (nat i))"

definition startswith :: "string \<Rightarrow> char \<Rightarrow> bool" where
  "startswith s c = (case s of [] \<Rightarrow> False | x # _ \<Rightarrow> x = c)"

text \<open>\<^verbatim>\<open>self.sequences[qudit]['program'] += text\<close>\<close>

definition append_program :: "string \<Rightarrow> string \<Rightarrow> scan \<Rightarrow> exn + scan" where
  "append_program qudit text s =
     and_then (lookup (sequences s) qudit) (\<lambda>q.
       Inr (s\<lparr>sequences := (sequences s)(qudit \<mapsto> q\<lparr>program := program q @ text\<rparr>)\<rparr>))"

definition append_all :: "string \<Rightarrow> scan \<Rightarrow> exn + scan" where
  "append_all text s = for_each (\<lambda>qudit. append_program qudit text) (qudits s) s"

subsection \<open>Program text\<close>

text \<open>The string literals of the source, character for character.\<close>

definition init_program_text :: string where
  "init_program_text =
     ''\<newline>'' @
     ''        # R0 is the value of main parameter of 1D Scan, if needed.\<newline>'' @
     ''        # R1 is the count of repetition for algorithm or x_points for parameter sweep.\<newline>'' @
     ''        # R2 is the relaxation time in microseconds.\<newline>'' @
     ''        # Other register for backup.\<newline>'' @
     ''        \<newline>'' @
     ''                    wait_sync        8\<newline>'' @
     ''                    move             0,R0\<newline>'' @
     ''                    move             0,R1\<newline>'' @
     ''                    move             0,R2\<newline>'' @
     ''                    move             0,R3\<newline>'' @
     ''                    move             0,R4\<newline>'' @
     ''                    move             0,R5\<newline>'' @
     ''        ''"

definition mainloop_text :: string where
  "mainloop_text =
     ''        \<newline>'' @
     ''        main_loop:  wait_sync        8                               # Sync at beginning of the loop.\<newline>'' @
     ''                    reset_ph                                         # Reset phase to eliminate effect of previous VZ gate.\<newline>'' @
     ''                    set_mrk          15                              # Enable all markers (binary 1111) for switching on output.\<newline>'' @
     ''                    upd_param        8                               # Update parameters and wait 8ns.\<newline>'' @
     ''        ''"

definition relaxation_head :: string where
  "relaxation_head =
     ''\<newline>'' @
     ''                #-----------Relaxation-----------\<newline>'' @
     ''                    move             ''"

definition relaxation_tail :: string where
  "relaxation_tail =
     '',R2\<newline>'' @
     ''        relx_loop:  wait             1000\<newline>'' @
     ''                    loop             R2,@relx_loop\<newline>'' @
     ''        ''"

definition prepulse_head :: string where
  "prepulse_head =
     ''\<newline>'' @
     ''                #-----------Prepulse-----------\<newline>'' @
     ''                ''"

definition postpulse_head :: string where
  "postpulse_head =
     ''\<newline>'' @
     ''                #-----------Postpulse-----------\<newline>'' @
     ''                ''"

definition readout_head :: string where
  "readout_head =
     ''\<newline>'' @
     ''                #-----------Readout-----------\<newline>'' @
     ''                ''"

definition stop_head :: string where
  "stop_head =
     ''\<newline>'' @
     ''                #-----------Stop-----------\<newline>'' @
     ''                    add              R1,1,R1\<newline>'' @
     ''                    set_mrk          0                               # Disable all markers (binary 0000) for switching off output.\<newline>'' @
     ''                    upd_param        8                               # Update parameters and wait 4ns.\<newline>'' @
     ''                    jlt              R1,''"

definition stop_tail :: string where
  "stop_tail =
     '',@main_loop\<newline>'' @
     ''                    \<newline>'' @
     ''                    stop             \<newline>'' @
     ''        ''"

definition wait_head :: string where
  "wait_head =
     ''\<newline>'' @
     ''        #-----------Wait-----------\<newline>'' @
     ''                    wait             ''"

definition wait_tail :: string where
  "wait_tail =
     ''                               \<newline>'' @
     ''        ''"

subsection \<open>The stages\<close>

text \<open>
  \<^verbatim>\<open>acquisitions = {'readout': {'num_bins': self.x_points, 'index': 0},\<close>
  \<^verbatim>\<open>                'heralding': {'num_bins': self.x_points, 'index': 1}}\<close>
\<close>

definition set_waveforms_acquisitions :: "utils \<Rightarrow> variables \<Rightarrow> scan \<Rightarrow> exn + scan" where
  "set_waveforms_acquisitions u cfg s0 =
     for_each (\<lambda>qudit s.
        let pulse_length = (if startswith qudit CHR ''Q'' then qubit_pulse_length_ns cfg
                            else resonator_pulse_length_ns cfg)
        in and_then (lookup (pulse_shape cfg) qudit) (\<lambda>shape.
           and_then (get_waveform u pulse_length shape) (\<lambda>waveform.
           and_then (lookup (sequences s) qudit) (\<lambda>q.
             Inr (s\<lparr>sequences := (sequences s)(qudit \<mapsto> q\<lparr>
                    waveforms := [(qudit, \<lparr>data = waveform, wf_index = 0\<rparr>)],
                    weights := [],
                    acquisitions :=
                      [(''readout'', \<lparr>num_bins = x_points s, index = 0\<rparr>),
                       (''heralding'', \<lparr>num_bins = x_points s, index = 1\<rparr>)]\<rparr>)\<rparr>)))))
       (qudits s0) s0"

definition init_program :: "scan \<Rightarrow> exn + scan" where
  "init_program s0 =
     for_each (\<lambda>qudit s.
        and_then (lookup (sequences s) qudit) (\<lambda>q.
          Inr (s\<lparr>sequences := (sequences s)(qudit \<mapsto> q\<lparr>program := init_program_text\<rparr>)\<rparr>)))
       (qudits s0) s0"

text \<open>In the base class \<open>add_initparameter\<close> and \<open>add_mainpulse\<close> only print a notice.\<close>

definition add_initparameter :: "scan \<Rightarrow> exn + scan" where
  "add_initparameter s = Inr s"

definition add_mainpulse :: "scan \<Rightarrow> exn + scan" where
  "add_mainpulse s = Inr s"

definition add_mainloop :: "scan \<Rightarrow> exn + scan" where
  "add_mainloop s = append_all mainloop_text s"

definition add_relaxation :: "variables \<Rightarrow> scan \<Rightarrow> exn + scan" where
  "add_relaxation cfg s =
     append_all (relaxation_head @ str_int (relaxation_time_us cfg) @ relaxation_tail) s"

text \<open>
  The three pulse stages share one shape: for every column, for every qudit, read the cell,
  interpret the pulse and append the headed text to that qudit's program.
\<close>

definition pulse_text :: "utils \<Rightarrow> column \<Rightarrow> nat option \<Rightarrow> string \<Rightarrow> exn + string" where
  "pulse_text u col acq_index qudit =
     and_then (lookup (cell col) qudit) (\<lambda>init_pulse_str.
       pulse_interpreter u qudit init_pulse_str (length_ns col) acq_index)"

definition add_pulses :: "utils \<Rightarrow> string \<Rightarrow> nat option \<Rightarrow> dataframe \<Rightarrow> scan \<Rightarrow> exn + scan" where
  "add_pulses u head acq_index df s0 =
     for_each (\<lambda>col. for_each (\<lambda>qudit s.
        and_then (pulse_text u col acq_index qudit) (\<lambda>text.
          append_program qudit (head @ text) s)) (qudits s0)) df s0"

definition add_prepulse :: "utils \<Rightarrow> scan \<Rightarrow> exn + scan" where
  "add_prepulse u s = add_pulses u prepulse_head None (full_prepulse_df s) s"

definition add_postpulse :: "utils \<Rightarrow> scan \<Rightarrow> exn + scan" where
  "add_postpulse u s = add_pulses u postpulse_head None (postpulse_df s) s"

definition add_readout :: "utils \<Rightarrow> nat \<Rightarrow> scan \<Rightarrow> exn + scan" where
  "add_readout u acq_index s = add_pulses u readout_head (Some acq_index) (readout_df s) s"

definition add_stop :: "scan \<Rightarrow> exn + scan" where
  "add_stop s = append_all (stop_head @ str_int (x_points s) @ stop_tail) s"

text \<open>
  \<^verbatim>\<open>assert time_ns < 65535 & time_ns >= 4, 'The wait time can only be in [4,65535).'\<close>
  In Python \<open>&\<close> binds tighter than the comparisons, so the condition is the chained
  comparison \<open>time_ns < (65535 & time_ns) >= 4\<close>, that is
  \<open>time_ns < (65535 & time_ns) and (65535 & time_ns) >= 4\<close>, with \<open>&\<close> the bitwise AND of
  unbounded two's-complement integers.
\<close>

definition wait_assertion :: "int \<Rightarrow> bool" where
  "wait_assertion time_ns = (time_ns < (65535 AND time_ns) \<and> (65535 AND time_ns) \<ge> 4)"

definition add_wait :: "int \<Rightarrow> scan \<Rightarrow> exn + scan" where
  "add_wait time_ns s =
     (if \<not> wait_assertion time_ns then Inl AssertionError
      else append_all (wait_head @ str_int time_ns @ wait_tail) s)"

definition add_heralding :: "utils \<Rightarrow> variables \<Rightarrow> nat \<Rightarrow> scan \<Rightarrow> exn + scan" where
  "add_heralding u cfg acq_index s =
     and_then (add_readout u acq_index s) (add_wait (heralding_delay_ns cfg))"

subsection \<open>\<open>make_sequence\<close>\<close>

text \<open>\<^verbatim>\<open>self.sequences = {qudit:{} for qudit in self.qudits}\<close>\<close>

definition empty_sequence :: sequence where
  "empty_sequence = \<lparr>waveforms = [], weights = [], acquisitions = [], program = []\<rparr>"

definition reset_sequences :: "scan \<Rightarrow> scan" where
  "reset_sequences s =
     s\<lparr>sequences := (\<lambda>qudit. if qudit \<in> set (qudits s) then Some empty_sequence else None)\<rparr>"

definition make_sequence :: "utils \<Rightarrow> variables \<Rightarrow> scan \<Rightarrow> exn + scan" where
  "make_sequence u cfg s0 =
     and_then (set_waveforms_acquisitions u cfg (reset_sequences s0)) (\<lambda>s.
     and_then (init_program s) (\<lambda>s.
     and_then (add_initparameter s) (\<lambda>s.
     and_then (add_mainloop s) (\<lambda>s.
     and_then (add_relaxation cfg s) (\<lambda>s.
     and_then (if heralding_enable s then add_heralding u cfg 1 s else Inr s) (\<lambda>s.
     and_then (add_prepulse u s) (\<lambda>s.
     and_then (add_mainpulse s) (\<lambda>s.
     and_then (add_postpulse u s) (\<lambda>s.
     and_then (add_readout u 0 s) add_stop)))))))))"

subsection \<open>The compiled program of one qudit\<close>

text \<open>
  The program of qudit \<open>q\<close> in a scan, empty when \<open>q\<close> has no sequence; what a stage that
  appends \<open>text\<close> once per entry of \<open>self.qudits\<close> adds to it; and what a pulse stage adds to
  it, column by column.
\<close>

definition program_of :: "scan \<Rightarrow> string \<Rightarrow> string" where
  "program_of s q = (case sequences s q of None \<Rightarrow> [] | Some sq \<Rightarrow> program sq)"

definition per_entry :: "string list \<Rightarrow> string \<Rightarrow> string \<Rightarrow> string" where
  "per_entry qs q text = concat (map (\<lambda>qudit. if qudit = q then text else []) qs)"

definition text_of :: "exn + string \<Rightarrow> string" where
  "text_of r = (case r of Inl e \<Rightarrow> [] | Inr t \<Rightarrow> t)"

definition pulses_text ::
  "utils \<Rightarrow> string \<Rightarrow> nat option \<Rightarrow> dataframe \<Rightarrow> string list \<Rightarrow> string \<Rightarrow> string" where
  "pulses_text u head acq_index df qs q =
     concat (map (\<lambda>col. concat (map (\<lambda>qudit.
        if qudit = q then head @ text_of (pulse_text u col acq_index qudit) else []) qs)) df)"

definition wait_text :: "int \<Rightarrow> string" where
  "wait_text time_ns = wait_head @ str_int time_ns @ wait_tail"

definition heralding_text :: "utils \<Rightarrow> variables \<Rightarrow> scan \<Rightarrow> string \<Rightarrow> string" where
  "heralding_text u cfg s q =
     pulses_text u readout_head (Some 1) (readout_df s) (qudits s) q
     @ per_entry (qudits s) q (wait_text (heralding_delay_ns cfg))"

definition compiled_program :: "utils \<Rightarrow> variables \<Rightarrow> scan \<Rightarrow> string \<Rightarrow> string" where
  "compiled_program u cfg s q =
     init_program_text
     @ per_entry (qudits s) q mainloop_text
     @ per_entry (qudits s) q
         (relaxation_head @ str_int (relaxation_time_us cfg) @ relaxation_tail)
     @ (if heralding_enable s then heralding_text u cfg s q else [])
     @ pulses_text u prepulse_head None (full_prepulse_df s) (qudits s) q
     @ pulses_text u postpulse_head None (postpulse_df s) (qudits s) q
     @ pulses_text u readout_head (Some 0) (readout_df s) (qudits s) q
     @ per_entry (qudits s) q (stop_head @ str_int (x_points s) @ stop_tail)"

subsection \<open>A concrete scan\<close>

text \<open>
  One drive qubit \<open>Q0\<close> read out through \<open>R0\<close>, no pre- or postpulse, two sweep points:
  the pulse tables are what \<open>generate_pulse_dataframe\<close> builds for it. The utilities are
  stand-ins that always succeed.
\<close>

definition demo_utils :: utils where
  "demo_utils = \<lparr>get_waveform = (\<lambda>n shape. Inr []),
                  pulse_interpreter = (\<lambda>qudit pulse n acq. Inr pulse)\<rparr>"

definition demo_cfg :: "int \<Rightarrow> variables" where
  "demo_cfg delay_ns = \<lparr>qubit_pulse_length_ns = 40, resonator_pulse_length_ns = 2000,
                         pulse_shape = [''Q0'' \<mapsto> ''gaussian'', ''R0'' \<mapsto> ''square''],
                         relaxation_time_us = 200, heralding_delay_ns = delay_ns\<rparr>"

definition demo_scan :: "bool \<Rightarrow> scan" where
  "demo_scan heralding =
     \<lparr>qudits = [''Q0'', ''R0''], x_points = 2, heralding_enable = heralding,
      full_prepulse_df = [], postpulse_df = [],
      readout_df = [\<lparr>col_name = ''readout_0'', cell = [''R0'' \<mapsto> ''RO'', ''Q0'' \<mapsto> ''I''],
                     length_ns = 2300\<rparr>],
      sequences = Map.empty\<rparr>"

section \<open>DAC_manager.py: \<open>DACManager.start_sequencer\<close>\<close>

subsection \<open>The instrument\<close>


text \<open>
  What the host reads of one named acquisition: the integrated bins of the two paths and the
  scope traces of the two paths.
\<close>

record acquisition =
  bins_path0 :: "real list"
  bins_path1 :: "real list"
  scope_path0 :: "real list"
  scope_path1 :: "real list"

record acquisitions_data =
  readout :: acquisition
  heralding :: acquisition


subsection \<open>The manager and the measurement\<close>




text \<open>
  The measurement dictionary is changed in place and the instrument keeps what was done to
  it, so an exception leaves a state behind: a call either returns a state or raises with
  one.
\<close>

datatype 'a outcome = Returned 'a | Raised exn 'a

definition next_step :: "'s outcome \<Rightarrow> ('s \<Rightarrow> 's outcome) \<Rightarrow> 's outcome" where
  "next_step r f = (case r of Returned s \<Rightarrow> f s | Raised e s \<Rightarrow> Raised e s)"



subsection \<open>\<open>start_sequencer\<close>\<close>






subsection \<open>What C2 speaks of\<close>







subsection \<open>Concrete instruments\<close>








section \<open>processing.py on a store\<close>

text \<open>
  The caller hands a processing function a reference to its data, and the module comment
  promises \<open>input_data = np.array(input_data)\<close> "protects the original object". To speak of
  that, objects live in a store: a list of objects, an address being a position in it.
  Allocation appends, so an address of the caller stays valid and a new object never
  overwrites an old one.
\<close>

type_synonym addr = nat

datatype obj =
    Real_array "real list list"
  | Int_array int_array2
  | Nd_array ndarray
  | Population "real list list"
  | Label_array "int list"
  | Fit_result "real list list" "real list"
  | Masked_array addr "(nat \<Rightarrow> nat \<Rightarrow> bool) option"

text \<open>
  With each object the store remembers how it came to be: given by the caller, copied from
  another object, made as a view of another object, or computed.
\<close>

datatype origin = Given | Copy_of addr | View_of addr | Computed

record cell_of_store =
  content :: obj
  origin :: origin

type_synonym store = "cell_of_store list"

definition alloc :: "store \<Rightarrow> obj \<Rightarrow> origin \<Rightarrow> store \<times> addr" where
  "alloc h v how = (h @ [\<lparr>content = v, origin = how\<rparr>], length h)"

text \<open>\<open>np.array(x)\<close>: a new array holding a copy of the entries of \<open>x\<close>.\<close>

definition np_array :: "store \<Rightarrow> addr \<Rightarrow> store \<times> addr" where
  "np_array h a = alloc h (content (h ! a)) (Copy_of a)"

text \<open>The library writes to the array at \<open>c\<close>.\<close>

definition overwrite :: "store \<Rightarrow> addr \<Rightarrow> (obj \<Rightarrow> obj) \<Rightarrow> store" where
  "overwrite h c f = h[c := (h ! c)\<lparr>content := f (content (h ! c))\<rparr>]"

text \<open>
  \<open>np.ma.MaskedArray(x, mask=mask)\<close> does not copy (\<open>copy=False\<close> is the default): the
  new object is a view that shares the entries of \<open>x\<close>.
\<close>

definition masked_view :: "store \<Rightarrow> addr \<Rightarrow> (nat \<Rightarrow> nat \<Rightarrow> bool) option \<Rightarrow> store \<times> addr" where
  "masked_view h a msk = alloc h (Masked_array a msk) (View_of a)"

text \<open>
  scikit-learn is outside the repository. Besides what \<open>fit\<close> and \<open>predict\<close> compute, the
  model lets the library write to the array it is handed: \<open>leaves\<close> is what that array holds
  afterwards. \<open>reshape(2,-1).T\<close> is a view, so the array handed over is the one reshaped.
\<close>

type_synonym sk_predict =
  "(real \<times> real) list \<Rightarrow> real list list \<Rightarrow> real list \<Rightarrow> exn + int list"

record sklearn =
  fit :: sk_fit
  predict :: sk_predict
  leaves :: "obj \<Rightarrow> obj"

text \<open>
  \<open>gmm_predict\<close> on values: the samples are classified by the mixture with the given means
  and covariances; the labels come back in the shape of the trailing axes, flattened here.
\<close>

definition gmm_predict ::
  "sk_predict \<Rightarrow> real list list \<Rightarrow> real list list \<Rightarrow> real list \<Rightarrow> exn + int list" where
  "gmm_predict pred input_data means covariances =
     and_then (reshape_2 input_data) (\<lambda>samples. pred samples means covariances)"

text \<open>
  Each function below is the function of the same name with the objects it creates. The
  result is the store afterwards and the address of the returned array, or the exception.
\<close>

definition rotate_IQ_mem :: "store \<Rightarrow> addr \<Rightarrow> real \<Rightarrow> store \<times> (exn + addr)" where
  "rotate_IQ_mem h a angle =
     (let (h1, c) = np_array h a
      in case content (h1 ! c) of
           Real_array input_data \<Rightarrow>
             (case rotate_IQ input_data angle of
                Inl e \<Rightarrow> (h1, Inl e)
              | Inr result \<Rightarrow> (let (h2, r) = alloc h1 (Real_array result) Computed in (h2, Inr r)))
         | _ \<Rightarrow> (h1, Inl ValueError))"

definition gmm_fit_mem :: "sklearn \<Rightarrow> store \<Rightarrow> addr \<Rightarrow> int \<Rightarrow> store \<times> (exn + addr)" where
  "gmm_fit_mem lib h a n_components =
     (let (h1, c) = np_array h a
      in case content (h1 ! c) of
           Real_array input_data \<Rightarrow>
             (case reshape_2 input_data of
                Inl e \<Rightarrow> (h1, Inl e)
              | Inr samples \<Rightarrow>
                  (let h2 = overwrite h1 c (leaves lib)
                   in case fit lib samples n_components of
                        Inl e \<Rightarrow> (h2, Inl e)
                      | Inr (means, covariances) \<Rightarrow>
                          (let (h3, r) = alloc h2 (Fit_result means covariances) Computed
                           in (h3, Inr r))))
         | _ \<Rightarrow> (h1, Inl ValueError))"

definition gmm_predict_mem ::
  "sklearn \<Rightarrow> store \<Rightarrow> addr \<Rightarrow> real list list \<Rightarrow> real list \<Rightarrow> store \<times> (exn + addr)" where
  "gmm_predict_mem lib h a means covariances =
     (let (h1, c) = np_array h a
      in case content (h1 ! c) of
           Real_array input_data \<Rightarrow>
             (case reshape_2 input_data of
                Inl e \<Rightarrow> (h1, Inl e)
              | Inr samples \<Rightarrow>
                  (let h2 = overwrite h1 c (leaves lib)
                   in case predict lib samples means covariances of
                        Inl e \<Rightarrow> (h2, Inl e)
                      | Inr labels \<Rightarrow>
                          (let (h3, r) = alloc h2 (Label_array labels) Computed in (h3, Inr r))))
         | _ \<Rightarrow> (h1, Inl ValueError))"

text \<open>
  \<open>normalize_population\<close> has no \<open>np.array(input_data)\<close>: it wraps the caller's array in a
  masked view and reads the entries through it.
\<close>

definition normalize_population_mem ::
  "store \<Rightarrow> addr \<Rightarrow> int \<Rightarrow> int \<Rightarrow> (nat \<Rightarrow> nat \<Rightarrow> bool) option \<Rightarrow> store \<times> (exn + addr)" where
  "normalize_population_mem h a n_levels axis msk =
     (let (h1, m) = masked_view h a msk
      in case content (h1 ! m) of
           Masked_array src msk' \<Rightarrow>
             (case content (h1 ! src) of
                Int_array input_data \<Rightarrow>
                  (case normalize_population input_data n_levels axis msk' of
                     Inl e \<Rightarrow> (h1, Inl e)
                   | Inr result \<Rightarrow> (let (h2, r) = alloc h1 (Population result) Computed in (h2, Inr r)))
              | _ \<Rightarrow> (h1, Inl ValueError))
         | _ \<Rightarrow> (h1, Inl ValueError))"

definition correct_population_mem ::
  "store \<Rightarrow> addr \<Rightarrow> real list list \<Rightarrow> store \<times> (exn + addr)" where
  "correct_population_mem h a corr_matrix =
     (let (h1, c) = np_array h a
      in case content (h1 ! c) of
           Nd_array input_data \<Rightarrow>
             (case correct_population input_data corr_matrix of
                Inl e \<Rightarrow> (h1, Inl e)
              | Inr result \<Rightarrow> (let (h2, r) = alloc h1 (Nd_array result) Computed in (h2, Inr r)))
         | _ \<Rightarrow> (h1, Inl ValueError))"


subsection \<open>What C9 speaks of\<close>

text \<open>
  After a call: every object of the caller is as it was; the returned address is new; the
  first object the call created was made by \<open>np.array\<close> from the input.
\<close>

definition unchanged :: "store \<Rightarrow> store \<times> (exn + addr) \<Rightarrow> bool" where
  "unchanged h res = (take (length h) (fst res) = h)"

definition fresh_result :: "store \<Rightarrow> store \<times> (exn + addr) \<Rightarrow> bool" where
  "fresh_result h res =
     (case snd res of Inl e \<Rightarrow> True | Inr r \<Rightarrow> length h \<le> r \<and> r < length (fst res))"

definition copied_first :: "store \<Rightarrow> addr \<Rightarrow> store \<times> (exn + addr) \<Rightarrow> bool" where
  "copied_first h a res =
     (length h < length (fst res) \<and> origin (fst res ! length h) = Copy_of a)"


text \<open>A library that zeroes whatever it is handed, and a store with the docstring's labels.\<close>

definition rude_sklearn :: sklearn where
  "rude_sklearn = \<lparr>fit = same_means_fit, predict = (\<lambda>samples means covs. Inr (map (\<lambda>s. 0) samples)),
                   leaves = (\<lambda>x. Real_array [])\<rparr>"

definition given :: "obj \<Rightarrow> cell_of_store" where
  "given v = \<lparr>content = v, origin = Given\<rparr>"

definition demo_store :: store where
  "demo_store = [given (Int_array doc_labels), given (Real_array [[0, 1], [2, 3]]),
                 given (Nd_array (Vector [1 / 2, 1 / 2])),
                 given (Nd_array nearly_singular_prediction)]"

section \<open>Loop invariants\<close>

text \<open>
  Invariants of the double loop of \<open>find_most_distant_points\<close>: \<open>max_distance\<close> never goes
  below 0 and is 0 while the pair is unbound; a bound pair consists of two input points at a
  positive distance.
\<close>

definition unbound_inv :: "distant_state \<Rightarrow> bool" where
  "unbound_inv st = (0 \<le> fst st \<and> (snd st = None \<longrightarrow> fst st = 0))"

definition bound_ok :: "real list list \<Rightarrow> distant_state \<Rightarrow> bool" where
  "bound_ok pts st =
     (case snd st of None \<Rightarrow> True
      | Some (p, q) \<Rightarrow> p \<in> set pts \<and> q \<in> set pts \<and> 0 < norm_diff p q)"

text \<open>
  The stages of \<open>make_sequence\<close> write \<open>self.sequences\<close> and nothing else of the scan.
\<close>

definition only_sequences :: "scan \<Rightarrow> scan \<Rightarrow> bool" where
  "only_sequences s s' = (s' = s\<lparr>sequences := sequences s'\<rparr>)"

text \<open>
  The acquisitions table of qudit \<open>q\<close> allocates bin index 0 to \<open>readout\<close> and 1 to
  \<open>heralding\<close>.
\<close>

definition bins_allocated :: "string \<Rightarrow> scan \<Rightarrow> bool" where
  "bins_allocated q s =
     (case sequences s q of
        None \<Rightarrow> False
      | Some seq \<Rightarrow> map (\<lambda>(name, e). (name, index e)) (acquisitions seq)
                     = [(''readout'', 0), (''heralding'', 1)])"

text \<open>
  For the elimination: every equation has \<open>n\<close> coefficients; \<open>v\<close> solves the homogeneous
  system; \<open>x\<close> solves the system.
\<close>

definition rows_of_length :: "nat \<Rightarrow> equation list \<Rightarrow> bool" where
  "rows_of_length n eqs = (\<forall>e\<in>set eqs. length (fst e) = n)"

definition kernel :: "equation list \<Rightarrow> real list \<Rightarrow> bool" where
  "kernel eqs v = (\<forall>e\<in>set eqs. dot (fst e) v = 0)"

definition satisfies :: "equation list \<Rightarrow> real list \<Rightarrow> bool" where
  "satisfies eqs x = (\<forall>e\<in>set eqs. dot (fst e) x = snd e)"


chapter \<open>Properties\<close>

section \<open>The wait instruction\<close>

lemma wait_assertion_nonneg: "0 \<le> t \<Longrightarrow> \<not> wait_assertion t"
proof -
  assume "0 \<le> t"
  then have "65535 AND t \<le> t" by (rule AND_upper2)
  then show ?thesis by (simp add: wait_assertion_def)
qed

lemma wait_assertion_iff: "wait_assertion t \<longleftrightarrow> t < 0 \<and> 4 \<le> t mod 65536"
proof -
  have m: "65535 AND t = t mod 65536"
    using take_bit_eq_mask [of 16 t] take_bit_eq_mod [of 16 t]
    by (simp add: and.commute mask_eq_exp_minus_1)
  show ?thesis
  proof (cases "0 \<le> t")
    case True
    then show ?thesis using wait_assertion_nonneg [of t] by simp
  next
    case False
    then have "t < t mod 65536"
      by (smt (verit) pos_mod_sign)
    then show ?thesis using False by (simp add: wait_assertion_def m)
  qed
qed

text \<open>
  The assertion of \<open>add_wait\<close> therefore accepts exactly the negative durations whose low
  16 bits are at least 4, and the accepted duration is written into the program.
\<close>

lemma add_wait_accepts_negative:
  "(case add_wait (- 10) (reset_sequences (demo_scan False)) of
      Inl e \<Rightarrow> False
    | Inr s \<Rightarrow> program_of s ''R0'' = wait_head @ ''-10'' @ wait_tail)"
  by code_simp

text \<open>
  C1 on the code. Every duration that C1 requires to be accepted, \<open>4 \<le> time_ns < 65535\<close>,
  fails the assertion: \<open>add_wait\<close> raises AssertionError and appends nothing.
\<close>

theorem add_wait_rejects_legal_durations:
  "4 \<le> time_ns \<Longrightarrow> time_ns < 65535 \<Longrightarrow> add_wait time_ns s = Inl AssertionError"
  using wait_assertion_nonneg [of time_ns] by (simp add: add_wait_def)

theorem add_wait_rejects_legal_durations_witness:
  "(4::int) \<le> 100 \<and> (100::int) < 65535 \<and> add_wait 100 (demo_scan False) = Inl AssertionError"
  using add_wait_rejects_legal_durations [of 100 "demo_scan False"] by simp

section \<open>Compiling a sequence\<close>

text \<open>Loops that may raise.\<close>

lemma and_then_Inr:
  "and_then r f = Inr y \<longleftrightarrow> (\<exists>v. r = Inr v \<and> f v = Inr y)"
  by (cases r) (simp_all add: and_then_def)

lemma for_each_inv:
  "(\<And>x s s'. x \<in> set xs \<Longrightarrow> I s \<Longrightarrow> body x s = Inr s' \<Longrightarrow> I s') \<Longrightarrow>
   I s \<Longrightarrow> for_each body xs s = Inr s' \<Longrightarrow> I s'"
proof (induction xs arbitrary: s)
  case Nil
  then show ?case by simp
next
  case (Cons x xs)
  from Cons.prems(3) obtain s1 where 1: "body x s = Inr s1" and 2: "for_each body xs s1 = Inr s'"
    by (auto simp: and_then_Inr)
  have "I s1" using Cons.prems(1) [of x s s1] Cons.prems(2) 1 by simp
  moreover have "\<And>y t t'. y \<in> set xs \<Longrightarrow> I t \<Longrightarrow> body y t = Inr t' \<Longrightarrow> I t'"
    using Cons.prems(1) by (meson list.set_intros(2))
  ultimately show ?case using Cons.IH [of s1] 2 by blast
qed

lemma for_each_establish:
  assumes step: "\<And>x s s'. body x s = Inr s' \<Longrightarrow> (x = q \<longrightarrow> J s') \<and> (J s \<longrightarrow> J s')"
  shows "J s \<or> q \<in> set xs \<Longrightarrow> for_each body xs s = Inr s' \<Longrightarrow> J s'"
proof (induction xs arbitrary: s)
  case Nil
  then show ?case by simp
next
  case (Cons x xs)
  from Cons.prems(2) obtain s1 where 1: "body x s = Inr s1" and 2: "for_each body xs s1 = Inr s'"
    by (auto simp: and_then_Inr)
  have "J s1 \<or> q \<in> set xs"
    using step [OF 1] Cons.prems(1) by auto
  then show ?case using Cons.IH [of s1] 2 by blast
qed

lemma for_each_appends:
  "(\<And>x s s'. body x s = Inr s' \<Longrightarrow> g s' = g s @ t x) \<Longrightarrow>
   for_each body xs s = Inr s' \<Longrightarrow> g s' = g s @ concat (map t xs)"
proof (induction xs arbitrary: s)
  case Nil
  then show ?case by simp
next
  case (Cons x xs)
  from Cons.prems(2) obtain s1 where 1: "body x s = Inr s1" and 2: "for_each body xs s1 = Inr s'"
    by (auto simp: and_then_Inr)
  have "g s1 = g s @ t x" using Cons.prems(1) 1 by blast
  moreover have "g s' = g s1 @ concat (map t xs)"
    using Cons.IH [OF Cons.prems(1) 2] by blast
  ultimately show ?case by simp
qed

text \<open>The stages write nothing but \<open>self.sequences\<close>.\<close>

lemma only_sequences_refl: "only_sequences s s"
  by (simp add: only_sequences_def)

lemma only_sequences_trans:
  "only_sequences s s' \<Longrightarrow> only_sequences s' s'' \<Longrightarrow> only_sequences s s''"
  by (cases s, cases s', cases s'') (simp add: only_sequences_def)

lemma only_sequences_update: "only_sequences s (s\<lparr>sequences := m\<rparr>)"
  by (simp add: only_sequences_def)

lemma append_program_frame: "append_program q t s = Inr s' \<Longrightarrow> only_sequences s s'"
  by (auto simp: append_program_def and_then_Inr only_sequences_update)

lemma append_all_frame: "append_all t s = Inr s' \<Longrightarrow> only_sequences s s'"
  unfolding append_all_def
  by (erule for_each_inv [where I = "only_sequences s", rotated 2])
     (auto intro: only_sequences_trans append_program_frame only_sequences_refl)

lemma add_pulses_frame: "add_pulses u h a df s = Inr s' \<Longrightarrow> only_sequences s s'"
  unfolding add_pulses_def
  apply (erule for_each_inv [where I = "only_sequences s", rotated 2])
   apply (erule for_each_inv [rotated 2])
    apply (auto simp: and_then_Inr intro: only_sequences_trans append_program_frame
      only_sequences_refl)
  done

lemma set_waveforms_acquisitions_frame:
  "set_waveforms_acquisitions u cfg s = Inr s' \<Longrightarrow> only_sequences s s'"
  unfolding set_waveforms_acquisitions_def
  by (erule for_each_inv [where I = "only_sequences s", rotated 2])
     (auto simp: and_then_Inr Let_def intro: only_sequences_trans only_sequences_update
        only_sequences_refl)

lemma init_program_frame: "init_program s = Inr s' \<Longrightarrow> only_sequences s s'"
  unfolding init_program_def
  by (erule for_each_inv [where I = "only_sequences s", rotated 2])
     (auto simp: and_then_Inr intro: only_sequences_trans only_sequences_update
        only_sequences_refl)

lemma only_sequences_fields:
  "only_sequences s s' \<Longrightarrow>
   qudits s' = qudits s \<and> x_points s' = x_points s \<and> heralding_enable s' = heralding_enable s
   \<and> full_prepulse_df s' = full_prepulse_df s \<and> postpulse_df s' = postpulse_df s
   \<and> readout_df s' = readout_df s"
  by (cases s, cases s') (simp add: only_sequences_def)

text \<open>What each stage appends to the program of a qudit.\<close>

lemma append_program_text:
  "append_program qudit text s = Inr s' \<Longrightarrow>
   program_of s' q = program_of s q @ (if qudit = q then text else [])"
  by (auto simp: append_program_def and_then_Inr lookup_def program_of_def split: option.splits)

lemma append_all_text:
  "append_all text s = Inr s' \<Longrightarrow>
   program_of s' q = program_of s q @ per_entry (qudits s) q text"
  unfolding append_all_def per_entry_def
  by (rule for_each_appends [where g = "\<lambda>s. program_of s q"]) (simp_all add: append_program_text)

lemma add_pulses_text:
  "add_pulses u head acq df s = Inr s' \<Longrightarrow>
   program_of s' q = program_of s q @ pulses_text u head acq df (qudits s) q"
  unfolding add_pulses_def pulses_text_def
proof (rule for_each_appends [where g = "\<lambda>s. program_of s q"])
  fix col s1 s2
  assume "for_each (\<lambda>qudit s. and_then (pulse_text u col acq qudit)
            (\<lambda>text. append_program qudit (head @ text) s)) (qudits s) s1 = Inr s2"
  then show "program_of s2 q = program_of s1 q @
     concat (map (\<lambda>qudit. if qudit = q then head @ text_of (pulse_text u col acq qudit) else [])
        (qudits s))"
  proof (rule for_each_appends [where g = "\<lambda>s. program_of s q", rotated])
    fix qudit t1 t2
    assume "and_then (pulse_text u col acq qudit)
              (\<lambda>text. append_program qudit (head @ text) t1) = Inr t2"
    then obtain pt where "pulse_text u col acq qudit = Inr pt"
        "append_program qudit (head @ pt) t1 = Inr t2"
      by (auto simp: and_then_Inr)
    then show "program_of t2 q = program_of t1 q @
        (if qudit = q then head @ text_of (pulse_text u col acq qudit) else [])"
      using append_program_text [of qudit "head @ pt" t1 t2 q] by (auto simp: text_of_def)
  qed
qed

lemma init_program_text:
  "init_program s = Inr s' \<Longrightarrow> q \<in> set (qudits s) \<Longrightarrow> program_of s' q = init_program_text"
  unfolding init_program_def
  by (erule for_each_establish [where J = "\<lambda>s. program_of s q = init_program_text" and q = q,
        rotated 2])
     (auto simp: and_then_Inr lookup_def program_of_def split: option.splits if_splits)

lemma add_heralding_text:
  assumes "add_heralding u cfg 1 s = Inr s'"
  shows "program_of s' q = program_of s q @ heralding_text u cfg s q \<and> only_sequences s s'"
proof -
  from assms obtain s1 where 1: "add_readout u 1 s = Inr s1"
    and 2: "add_wait (heralding_delay_ns cfg) s1 = Inr s'"
    by (auto simp: add_heralding_def and_then_Inr)
  from 2 have 3: "append_all (wait_text (heralding_delay_ns cfg)) s1 = Inr s'"
    by (auto simp: add_wait_def wait_text_def split: if_splits)
  have f1: "only_sequences s s1" using 1 by (auto simp: add_readout_def dest: add_pulses_frame)
  have f2: "only_sequences s1 s'" using 3 by (rule append_all_frame)
  have "program_of s1 q = program_of s q @ pulses_text u readout_head (Some 1) (readout_df s) (qudits s) q"
    using 1 by (auto simp: add_readout_def dest: add_pulses_text)
  moreover have "program_of s' q = program_of s1 q @ per_entry (qudits s) q (wait_text (heralding_delay_ns cfg))"
    using append_all_text [OF 3, of q] only_sequences_fields [OF f1] by simp
  ultimately show ?thesis
    using only_sequences_trans [OF f1 f2] by (simp add: heralding_text_def)
qed

text \<open>
  Whenever \<open>make_sequence\<close> returns, the program of every qudit is the text of the stages
  in their order: with heralding enabled, the heralding readout and the wait come after the
  relaxation and before the prepulses.
\<close>

lemma make_sequence_program:
  assumes ok: "make_sequence u cfg s = Inr s'" and q: "q \<in> set (qudits s)"
  shows "program_of s' q = compiled_program u cfg s q"
proof -
  let ?r = "reset_sequences s"
  from ok obtain s1 s2 s3 s4 s5 s6 s7 s8 s9 s10 where
      1: "set_waveforms_acquisitions u cfg ?r = Inr s1"
    and 2: "init_program s1 = Inr s2"
    and 3: "add_initparameter s2 = Inr s3"
    and 4: "add_mainloop s3 = Inr s4"
    and 5: "add_relaxation cfg s4 = Inr s5"
    and 6: "(if heralding_enable s5 then add_heralding u cfg 1 s5 else Inr s5) = Inr s6"
    and 7: "add_prepulse u s6 = Inr s7"
    and 8: "add_mainpulse s7 = Inr s8"
    and 9: "add_postpulse u s8 = Inr s9"
    and 10: "add_readout u 0 s9 = Inr s10"
    and 11: "add_stop s10 = Inr s'"
    unfolding make_sequence_def and_then_Inr by blast
  have r: "only_sequences s ?r" by (simp add: reset_sequences_def only_sequences_update)
  have o1: "only_sequences s s1"
    using only_sequences_trans [OF r set_waveforms_acquisitions_frame [OF 1]] .
  have o2: "only_sequences s s2" using only_sequences_trans [OF o1 init_program_frame [OF 2]] .
  have e3: "s3 = s2" using 3 by (simp add: add_initparameter_def)
  have o4: "only_sequences s s4"
    using only_sequences_trans [OF o2] 4 e3 by (auto simp: add_mainloop_def dest: append_all_frame)
  have o5: "only_sequences s s5"
    using only_sequences_trans [OF o4] 5 by (auto simp: add_relaxation_def dest: append_all_frame)
  have h6: "program_of s6 q = program_of s5 q
              @ (if heralding_enable s then heralding_text u cfg s5 q else [])
            \<and> only_sequences s5 s6"
    using 6 add_heralding_text [of u cfg s5 s6 q] only_sequences_fields [OF o5]
    by (auto simp: only_sequences_refl split: if_splits)
  have o6: "only_sequences s s6" using only_sequences_trans [OF o5] h6 by blast
  have o7: "only_sequences s s7"
    using only_sequences_trans [OF o6] 7 by (auto simp: add_prepulse_def dest: add_pulses_frame)
  have e8: "s8 = s7" using 8 by (simp add: add_mainpulse_def)
  have o9: "only_sequences s s9"
    using only_sequences_trans [OF o7] 9 e8 by (auto simp: add_postpulse_def dest: add_pulses_frame)
  have o10: "only_sequences s s10"
    using only_sequences_trans [OF o9] 10 by (auto simp: add_readout_def dest: add_pulses_frame)
  note f1 = only_sequences_fields [OF o1] and f2 = only_sequences_fields [OF o2]
    and f4 = only_sequences_fields [OF o4] and f5 = only_sequences_fields [OF o5]
    and f6 = only_sequences_fields [OF o6] and f7 = only_sequences_fields [OF o7]
    and f9 = only_sequences_fields [OF o9] and f10 = only_sequences_fields [OF o10]
  have p2: "program_of s2 q = init_program_text"
    using init_program_text [OF 2] q f1 by simp
  have p4: "program_of s4 q = program_of s2 q @ per_entry (qudits s) q mainloop_text"
    using 4 e3 f2 by (auto simp: add_mainloop_def dest: append_all_text)
  have p5: "program_of s5 q = program_of s4 q @ per_entry (qudits s) q
         (relaxation_head @ str_int (relaxation_time_us cfg) @ relaxation_tail)"
    using 5 f4 by (auto simp: add_relaxation_def dest: append_all_text)
  have p6: "program_of s6 q = program_of s5 q
              @ (if heralding_enable s then heralding_text u cfg s q else [])"
    using h6 f5 by (simp add: heralding_text_def)
  have p7: "program_of s7 q = program_of s6 q
              @ pulses_text u prepulse_head None (full_prepulse_df s) (qudits s) q"
    using 7 f6 by (auto simp: add_prepulse_def dest: add_pulses_text)
  have p9: "program_of s9 q = program_of s7 q
              @ pulses_text u postpulse_head None (postpulse_df s) (qudits s) q"
    using 9 e8 f7 by (auto simp: add_postpulse_def dest: add_pulses_text)
  have p10: "program_of s10 q = program_of s9 q
              @ pulses_text u readout_head (Some 0) (readout_df s) (qudits s) q"
    using 10 f9 by (auto simp: add_readout_def dest: add_pulses_text)
  have p11: "program_of s' q = program_of s10 q
              @ per_entry (qudits s) q (stop_head @ str_int (x_points s) @ stop_tail)"
    using 11 f10 by (auto simp: add_stop_def dest: append_all_text)
  show ?thesis
    unfolding compiled_program_def p11 p10 p9 p7 p6 p5 p4 p2 by simp
qed

text \<open>
  The acquisitions table of every qudit gives bin index 0 to \<open>readout\<close> and 1 to
  \<open>heralding\<close>, from \<open>set_waveforms_acquisitions\<close> on.
\<close>

lemma append_program_tables:
  "append_program qudit t s = Inr s' \<Longrightarrow> bins_allocated q s \<Longrightarrow> bins_allocated q s'"
  by (auto simp: append_program_def and_then_Inr lookup_def bins_allocated_def
      split: option.splits if_splits)

lemma append_all_tables:
  "append_all t s = Inr s' \<Longrightarrow> bins_allocated q s \<Longrightarrow> bins_allocated q s'"
  unfolding append_all_def
  by (erule for_each_inv [where I = "bins_allocated q", rotated 2])
     (auto intro: append_program_tables)

lemma add_pulses_tables:
  "add_pulses u h a df s = Inr s' \<Longrightarrow> bins_allocated q s \<Longrightarrow> bins_allocated q s'"
  unfolding add_pulses_def
  apply (erule for_each_inv [where I = "bins_allocated q", rotated 2])
   apply (erule for_each_inv [rotated 2])
    apply (auto simp: and_then_Inr intro: append_program_tables)
  done

lemma init_program_tables:
  "init_program s = Inr s' \<Longrightarrow> bins_allocated q s \<Longrightarrow> bins_allocated q s'"
  unfolding init_program_def
  by (erule for_each_inv [where I = "bins_allocated q", rotated 2])
     (auto simp: and_then_Inr lookup_def bins_allocated_def split: option.splits if_splits)

lemma set_waveforms_acquisitions_tables:
  "set_waveforms_acquisitions u cfg s = Inr s' \<Longrightarrow> q \<in> set (qudits s) \<Longrightarrow> bins_allocated q s'"
  unfolding set_waveforms_acquisitions_def
  by (erule for_each_establish [where J = "bins_allocated q" and q = q, rotated 2])
     (auto simp: and_then_Inr Let_def bins_allocated_def lookup_def split: option.splits if_splits)

lemma make_sequence_tables:
  assumes ok: "make_sequence u cfg s = Inr s'" and q: "q \<in> set (qudits s)"
  shows "bins_allocated q s'"
proof -
  from ok obtain s1 s2 s3 s4 s5 s6 s7 s8 s9 s10 where
      1: "set_waveforms_acquisitions u cfg (reset_sequences s) = Inr s1"
    and 2: "init_program s1 = Inr s2"
    and 3: "add_initparameter s2 = Inr s3"
    and 4: "add_mainloop s3 = Inr s4"
    and 5: "add_relaxation cfg s4 = Inr s5"
    and 6: "(if heralding_enable s5 then add_heralding u cfg 1 s5 else Inr s5) = Inr s6"
    and 7: "add_prepulse u s6 = Inr s7"
    and 8: "add_mainpulse s7 = Inr s8"
    and 9: "add_postpulse u s8 = Inr s9"
    and 10: "add_readout u 0 s9 = Inr s10"
    and 11: "add_stop s10 = Inr s'"
    unfolding make_sequence_def and_then_Inr by blast
  have "bins_allocated q s1"
    using set_waveforms_acquisitions_tables [OF 1] q by (simp add: reset_sequences_def)
  then have "bins_allocated q s2" using init_program_tables [OF 2] by simp
  then have "bins_allocated q s4"
    using 3 4 by (auto simp: add_initparameter_def add_mainloop_def dest: append_all_tables)
  then have "bins_allocated q s5"
    using 5 by (auto simp: add_relaxation_def dest: append_all_tables)
  then have "bins_allocated q s6"
    using 6
    by (auto simp: add_heralding_def add_readout_def add_wait_def and_then_Inr
        dest: append_all_tables add_pulses_tables split: if_splits)
  then have "bins_allocated q s7"
    using 7 by (auto simp: add_prepulse_def dest: add_pulses_tables)
  then have "bins_allocated q s9"
    using 8 9 by (auto simp: add_mainpulse_def add_postpulse_def dest: add_pulses_tables)
  then have "bins_allocated q s10"
    using 10 by (auto simp: add_readout_def dest: add_pulses_tables)
  then show ?thesis
    using 11 by (auto simp: add_stop_def dest: append_all_tables)
qed

text \<open>
  But the wait of the heralding stage is \<open>add_wait\<close>, which accepts no duration that is
  not negative.
\<close>

lemma add_heralding_raises:
  "0 \<le> heralding_delay_ns cfg \<Longrightarrow> add_heralding u cfg k s \<noteq> Inr s'"
  using wait_assertion_nonneg [of "heralding_delay_ns cfg"]
  by (simp add: add_heralding_def and_then_Inr add_wait_def)

text \<open>
  C3 on the code. With heralding enabled and a heralding delay that is not negative,
  \<open>make_sequence\<close> does not return a compiled sequence: the \<open>add_wait\<close> of the heralding
  stage fails its assertion before the prepulse stage is reached.
\<close>

theorem make_sequence_heralding_raises:
  "heralding_enable s \<Longrightarrow> 0 \<le> heralding_delay_ns cfg \<Longrightarrow> make_sequence u cfg s \<noteq> Inr s'"
proof
  assume h: "heralding_enable s" and d: "0 \<le> heralding_delay_ns cfg"
    and ok: "make_sequence u cfg s = Inr s'"
  from ok obtain s1 s2 s3 s4 s5 s6 where
      1: "set_waveforms_acquisitions u cfg (reset_sequences s) = Inr s1"
    and 2: "init_program s1 = Inr s2"
    and 3: "add_initparameter s2 = Inr s3"
    and 4: "add_mainloop s3 = Inr s4"
    and 5: "add_relaxation cfg s4 = Inr s5"
    and 6: "(if heralding_enable s5 then add_heralding u cfg 1 s5 else Inr s5) = Inr s6"
    unfolding make_sequence_def and_then_Inr by blast
  have "only_sequences (reset_sequences s) s5"
    using 1 2 3 4 5
    by (auto simp: add_initparameter_def add_mainloop_def add_relaxation_def
        dest!: set_waveforms_acquisitions_frame init_program_frame append_all_frame
        intro: only_sequences_trans)
  then have "heralding_enable s5"
    using h only_sequences_fields [of "reset_sequences s" s5] by (simp add: reset_sequences_def)
  with 6 show False using add_heralding_raises [OF d] by simp
qed

theorem make_sequence_heralding_raises_witness:
  "heralding_enable (demo_scan True) \<and> 0 \<le> heralding_delay_ns (demo_cfg 400)
   \<and> (\<exists>e. make_sequence demo_utils (demo_cfg 400) (demo_scan True) = Inl e)"
proof -
  have h: "heralding_enable (demo_scan True)" by (simp add: demo_scan_def)
  have d: "0 \<le> heralding_delay_ns (demo_cfg 400)" by (simp add: demo_cfg_def)
  have "make_sequence demo_utils (demo_cfg 400) (demo_scan True) \<noteq> Inr s'" for s'
    by (rule make_sequence_heralding_raises [OF h d])
  then show ?thesis using h d
    by (cases "make_sequence demo_utils (demo_cfg 400) (demo_scan True)") auto
qed

text \<open>
  On the concrete scan: a delay of 400 ns ends the compilation with AssertionError, and the
  only delays that compile are negative ones, which the program then carries.
\<close>

lemma make_sequence_demo_assertion:
  "(case make_sequence demo_utils (demo_cfg 400) (demo_scan True) of
      Inl e \<Rightarrow> e = AssertionError | Inr s \<Rightarrow> False)"
  by code_simp

lemma demo_program_negative_delay:
  "(case make_sequence demo_utils (demo_cfg (- 10)) (demo_scan True) of
      Inl e \<Rightarrow> False
    | Inr s \<Rightarrow> program_of s ''R0''
               = init_program_text @ mainloop_text
                 @ relaxation_head @ ''200'' @ relaxation_tail
                 @ readout_head @ ''RO'' @ wait_head @ ''-10'' @ wait_tail
                 @ readout_head @ ''RO''
                 @ stop_head @ ''2'' @ stop_tail)"
  by code_simp

section \<open>Starting the sequencers\<close>

lemma next_step_Returned:
  "next_step r f = Returned y \<longleftrightarrow> (\<exists>s. r = Returned s \<and> f s = Returned y)"
  by (cases r) (simp_all add: next_step_def)

lemma next_step_Raised:
  "next_step r f = Raised e y \<longleftrightarrow>
     r = Raised e y \<or> (\<exists>s. r = Returned s \<and> f s = Raised e y)"
  by (cases r) (auto simp: next_step_def)














section \<open>Rotation\<close>

lemma rotate_back_lists:
  "length I = length Q \<Longrightarrow>
   map2 (\<lambda>x y. cos t * x + sin t * y)
        (map2 (\<lambda>x y. cos t * x + - sin t * y) I Q)
        (map2 (\<lambda>x y. sin t * x + cos t * y) I Q) = (I :: real list)
   \<and> map2 (\<lambda>x y. - sin t * x + cos t * y)
        (map2 (\<lambda>x y. cos t * x + - sin t * y) I Q)
        (map2 (\<lambda>x y. sin t * x + cos t * y) I Q) = Q"
proof (induction I Q rule: list_induct2)
  case Nil
  show ?case by simp
next
  case (Cons x xs y ys)
  have cs: "cos t * cos t + sin t * sin t = 1"
    using sin_cos_squared_add2 [of t] by (simp add: power2_eq_square)
  have e: "z * (cos t * cos t) + z * (sin t * sin t) = z" for z :: real
    using cs by (metis distrib_left mult.right_neutral)
  have "cos t * (cos t * x + - sin t * y) + sin t * (sin t * x + cos t * y) = x"
    by (simp add: algebra_simps e)
  moreover have "- sin t * (cos t * x + - sin t * y) + cos t * (sin t * x + cos t * y) = y"
    by (simp add: algebra_simps e)
  ultimately show ?case using Cons.IH by simp
qed

text \<open>
  C8. Rotating IQ data by \<open>theta\<close> and then by \<open>-theta\<close> gives the data back: both calls
  return, and the second result is the input. Over the reals the equality is exact.
\<close>

theorem rotate_IQ_inverse:
  "iq_shaped d \<Longrightarrow> and_then (rotate_IQ d theta) (\<lambda>r. rotate_IQ r (- theta)) = Inr d"
proof -
  assume "iq_shaped d"
  then obtain I Q where d: "d = [I, Q]" and len: "length I = length Q"
    by (auto simp: iq_shaped_def split: list.splits)
  show ?thesis
    using rotate_back_lists [OF len, of theta]
    by (simp add: d len and_then_def rotate_IQ_def rot_matrix_def einsum_row_def)
qed

theorem rotate_IQ_inverse_witness:
  "iq_shaped [[1, 0], [0, 2]] \<and>
   and_then (rotate_IQ [[1, 0], [0, 2]] (pi / 2)) (\<lambda>r. rotate_IQ r (- (pi / 2)))
     = Inr [[1, 0], [0, 2]]"
  using rotate_IQ_inverse [of "[[1, 0], [0, 2]]" "pi / 2"]
  by (simp add: iq_shaped_def)

section \<open>Rounding to a double\<close>












section \<open>Population normalisation\<close>













section \<open>Confusion-matrix correction\<close>

lemma pivot_Some:
  "pivot eqs = Some (p, rest) \<Longrightarrow> lead p \<noteq> 0 \<and> set eqs = insert p (set rest)"
proof (induction eqs arbitrary: rest)
  case Nil
  then show ?case by simp
next
  case (Cons e es)
  show ?case
  proof (cases "lead e \<noteq> 0")
    case True
    with Cons.prems show ?thesis by auto
  next
    case False
    with Cons.prems obtain r where r: "pivot es = Some (p, r)" and rest: "rest = e # r"
      by (auto split: option.splits)
    from Cons.IH [OF r] rest show ?thesis by auto
  qed
qed

lemma pivot_None: "pivot eqs = None \<Longrightarrow> e \<in> set eqs \<Longrightarrow> lead e = 0"
  by (induction eqs) (auto split: if_splits option.splits)

lemma dot_zeros: "dot a (replicate n 0) = 0"
proof (induction a arbitrary: n)
  case Nil
  show ?case by simp
next
  case (Cons c cs)
  show ?case using Cons.IH by (cases n) simp_all
qed

lemma dot_eliminate:
  "length cs = length as \<Longrightarrow>
   dot (map2 (\<lambda>c a. c - f * a) cs as) xs = dot cs xs - f * dot as xs"
proof (induction cs as arbitrary: xs rule: list_induct2)
  case Nil
  show ?case by simp
next
  case (Cons c cs a as)
  show ?case
  proof (cases xs)
    case Nil
    then show ?thesis by simp
  next
    case (Cons x xs')
    then show ?thesis using Cons.IH [of xs'] by (simp add: algebra_simps)
  qed
qed

lemma row_Suc:
  "length (fst e) = Suc n \<Longrightarrow> \<exists>c cs. fst e = c # cs \<and> length cs = n \<and> lead e = c"
  by (cases "fst e") (auto simp: lead_def)

lemma eliminate_dot:
  assumes p: "fst p = a # as" "length as = n" "a \<noteq> 0"
    and e: "fst e = c # cs" "length cs = n"
  shows "dot (fst (eliminate p e)) xs = dot cs xs - (c / a) * dot as xs"
    and "snd (eliminate p e) = snd e - (c / a) * snd p"
    and "length (fst (eliminate p e)) = n"
  using p e dot_eliminate [of cs as "c / a" xs]
  by (simp_all add: eliminate_def lead_def Let_def)

lemma rows_of_length_reduced:
  assumes "rows_of_length (Suc n) eqs" "pivot eqs = Some (p, rest)"
  shows "rows_of_length n (map (eliminate p) rest)"
proof -
  from pivot_Some [OF assms(2)] have s: "set eqs = insert p (set rest)" by simp
  from assms(1) s obtain a as where p: "fst p = a # as" "length as = n"
    using row_Suc [of p n] by (auto simp: rows_of_length_def)
  have "length (fst (eliminate p e)) = n" if "e \<in> set rest" for e
  proof -
    from assms(1) s that obtain c cs where e: "fst e = c # cs" "length cs = n"
      using row_Suc [of e n] by (auto simp: rows_of_length_def)
    show ?thesis using p e by (simp add: eliminate_def Let_def)
  qed
  then show ?thesis by (auto simp: rows_of_length_def)
qed

lemma gauss_unique:
  "rows_of_length n eqs \<Longrightarrow> length x = n \<Longrightarrow> satisfies eqs x \<Longrightarrow>
   gauss n eqs = Some y \<Longrightarrow> y = x"
proof (induction n arbitrary: eqs x y)
  case 0
  then show ?case by simp
next
  case (Suc n)
  from Suc.prems(4) obtain p rest ys where
      piv: "pivot eqs = Some (p, rest)"
    and rec: "gauss n (map (eliminate p) rest) = Some ys"
    and y: "y = (snd p - dot (tl (fst p)) ys) / lead p # ys"
    by (auto split: option.splits)
  from pivot_Some [OF piv] have nz: "lead p \<noteq> 0" and s: "set eqs = insert p (set rest)"
    by simp_all
  from Suc.prems(1) s obtain a as where p: "fst p = a # as" "length as = n" "lead p = a"
    using row_Suc [of p n] by (auto simp: rows_of_length_def)
  from Suc.prems(2) obtain x1 xs where x: "x = x1 # xs" "length xs = n"
    by (cases x) auto
  have a: "a \<noteq> 0" using nz p by simp
  have satp: "a * x1 + dot as xs = snd p"
    using Suc.prems(3) s p x by (auto simp: satisfies_def)
  have "satisfies (map (eliminate p) rest) xs"
    unfolding satisfies_def
  proof
    fix e' assume "e' \<in> set (map (eliminate p) rest)"
    then obtain e where e: "e \<in> set rest" "e' = eliminate p e" by auto
    from Suc.prems(1) s e obtain c cs where c: "fst e = c # cs" "length cs = n"
      using row_Suc [of e n] by (auto simp: rows_of_length_def)
    have sate: "c * x1 + dot cs xs = snd e"
      using Suc.prems(3) s e c x by (auto simp: satisfies_def)
    have d1: "dot cs xs = snd e - c * x1" using sate by linarith
    have d2: "dot as xs = snd p - a * x1" using satp by linarith
    have "dot cs xs - (c / a) * dot as xs = snd e - (c / a) * snd p"
      unfolding d1 d2 using a by (simp add: field_simps)
    then show "dot (fst e') xs = snd e'"
      using eliminate_dot(1) [OF p(1) p(2) a c, of xs] eliminate_dot(2) [OF p(1) p(2) a c] e
      by simp
  qed
  from Suc.IH [OF rows_of_length_reduced [OF Suc.prems(1) piv] x(2) this rec]
  have ys: "ys = xs" .
  have "(snd p - dot as xs) / a = x1"
    using satp a by (simp add: field_simps)
  then show ?case using y ys p x by simp
qed

lemma gauss_complete:
  "rows_of_length n eqs \<Longrightarrow>
   (\<And>v. length v = n \<Longrightarrow> kernel eqs v \<Longrightarrow> v = replicate n 0) \<Longrightarrow>
   \<exists>y. gauss n eqs = Some y"
proof (induction n arbitrary: eqs)
  case 0
  show ?case by simp
next
  case (Suc n)
  have "pivot eqs \<noteq> None"
  proof
    assume none: "pivot eqs = None"
    have "kernel eqs (1 # replicate n 0)"
      unfolding kernel_def
    proof
      fix e assume e: "e \<in> set eqs"
      from Suc.prems(1) e obtain c cs where c: "fst e = c # cs" "lead e = c"
        using row_Suc [of e n] by (auto simp: rows_of_length_def)
      from pivot_None [OF none e] c show "dot (fst e) (1 # replicate n 0) = 0"
        by (simp add: dot_zeros)
    qed
    from Suc.prems(2) [OF _ this] show False by simp
  qed
  then obtain p rest where piv: "pivot eqs = Some (p, rest)" by auto
  from pivot_Some [OF piv] have nz: "lead p \<noteq> 0" and s: "set eqs = insert p (set rest)"
    by simp_all
  from Suc.prems(1) s obtain a as where p: "fst p = a # as" "length as = n" "lead p = a"
    using row_Suc [of p n] by (auto simp: rows_of_length_def)
  have a: "a \<noteq> 0" using nz p by simp
  have "v = replicate n 0" if len: "length v = n" and k: "kernel (map (eliminate p) rest) v" for v
  proof -
    let ?x1 = "- dot as v / a"
    have "kernel eqs (?x1 # v)"
      unfolding kernel_def
    proof
      fix e assume e: "e \<in> set eqs"
      show "dot (fst e) (?x1 # v) = 0"
      proof (cases "e = p")
        case True
        then show ?thesis using p a by simp
      next
        case False
        with e s have er: "e \<in> set rest" by auto
        from Suc.prems(1) e obtain c cs where c: "fst e = c # cs" "length cs = n"
          using row_Suc [of e n] by (auto simp: rows_of_length_def)
        have "dot (fst (eliminate p e)) v = 0"
          using k er by (auto simp: kernel_def)
        then have "dot cs v - (c / a) * dot as v = 0"
          using eliminate_dot(1) [OF p(1) p(2) a c, of v] by simp
        then show ?thesis using c a by (simp add: field_simps)
      qed
    qed
    from Suc.prems(2) [OF _ this] len show ?thesis by simp
  qed
  from Suc.IH [OF rows_of_length_reduced [OF Suc.prems(1) piv] this]
  obtain ys where "gauss n (map (eliminate p) rest) = Some ys" by blast
  then show ?case using piv by simp
qed

lemma gauss_singular:
  "rows_of_length n eqs \<Longrightarrow> length v = n \<Longrightarrow> v \<noteq> replicate n 0 \<Longrightarrow> kernel eqs v \<Longrightarrow>
   gauss n eqs = None"
proof (induction n arbitrary: eqs v)
  case 0
  then show ?case by simp
next
  case (Suc n)
  show ?case
  proof (cases "pivot eqs")
    case None
    then show ?thesis by simp
  next
    case (Some pr)
    then obtain p rest where piv: "pivot eqs = Some (p, rest)" by (cases pr) auto
    from pivot_Some [OF piv] have nz: "lead p \<noteq> 0" and s: "set eqs = insert p (set rest)"
      by simp_all
    from Suc.prems(1) s obtain a as where p: "fst p = a # as" "length as = n" "lead p = a"
      using row_Suc [of p n] by (auto simp: rows_of_length_def)
    have a: "a \<noteq> 0" using nz p by simp
    from Suc.prems(2) obtain v1 vs where v: "v = v1 # vs" "length vs = n"
      by (cases v) auto
    have kp: "a * v1 + dot as vs = 0"
      using Suc.prems(4) s p v by (auto simp: kernel_def)
    have kr: "kernel (map (eliminate p) rest) vs"
      unfolding kernel_def
    proof
      fix e' assume "e' \<in> set (map (eliminate p) rest)"
      then obtain e where e: "e \<in> set rest" "e' = eliminate p e" by auto
      from Suc.prems(1) s e obtain c cs where c: "fst e = c # cs" "length cs = n"
        using row_Suc [of e n] by (auto simp: rows_of_length_def)
      have ke: "c * v1 + dot cs vs = 0"
        using Suc.prems(4) s e c v by (auto simp: kernel_def)
      have d1: "dot cs vs = - (c * v1)" using ke by linarith
      have d2: "dot as vs = - (a * v1)" using kp by linarith
      have "dot cs vs - (c / a) * dot as vs = 0"
        unfolding d1 d2 using a by (simp add: field_simps)
      then show "dot (fst e') vs = 0"
        using eliminate_dot(1) [OF p(1) p(2) a c, of vs] e by simp
    qed
    have "vs \<noteq> replicate n 0"
    proof
      assume z: "vs = replicate n 0"
      with kp a have "v1 = 0" by (simp add: dot_zeros)
      with z v Suc.prems(3) show False by simp
    qed
    from Suc.IH [OF rows_of_length_reduced [OF Suc.prems(1) piv] v(2) this kr]
    show ?thesis using piv by simp
  qed
qed


lemma rows_of_length_zip:
  "is_square m \<Longrightarrow> rows_of_length (length m) (zip m b)"
  by (auto simp: rows_of_length_def is_square_def list_all_iff dest: set_zip_leftD)

lemma kernel_zip:
  assumes "length b = length m" "kernel (zip m b) v"
  shows "matvec m v = replicate (length m) 0"
proof -
  have "dot row v = 0" if "row \<in> set m" for row
  proof -
    from that obtain i where i: "i < length m" "m ! i = row" by (auto simp: in_set_conv_nth)
    then have "(row, b ! i) \<in> set (zip m b)"
      using assms(1) by (auto simp: in_set_zip)
    then show ?thesis using assms(2) by (auto simp: kernel_def)
  qed
  then have "map (\<lambda>row. dot row v) m = map (\<lambda>row. 0) m" by simp
  then show ?thesis by (simp add: matvec_def map_replicate_const)
qed

lemma kernel_zip_conv:
  assumes "matvec m v = replicate (length m) 0"
  shows "kernel (zip m b) v"
proof -
  have "dot row v = 0" if "row \<in> set m" for row
  proof -
    from that obtain i where i: "i < length m" "m ! i = row" by (auto simp: in_set_conv_nth)
    have "matvec m v ! i = dot row v" using i by (simp add: matvec_def)
    then show ?thesis using assms i by simp
  qed
  then show ?thesis by (auto simp: kernel_def dest: set_zip_leftD)
qed

lemma gauss_nonsingular:
  assumes "nonsingular m" "length b = length m"
  shows "\<exists>y. gauss (length m) (zip m b) = Some y"
proof (rule gauss_complete)
  show "rows_of_length (length m) (zip m b)"
    using assms(1) by (simp add: nonsingular_def rows_of_length_zip)
next
  fix v assume "length v = length m" "kernel (zip m b) v"
  then show "v = replicate (length m) 0"
    using assms kernel_zip [of b m v] by (simp add: nonsingular_def)
qed

lemma satisfies_forward: "satisfies (zip m (matvec m p)) p"
  by (auto simp: satisfies_def matvec_def in_set_zip)

lemma gauss_forward:
  assumes "nonsingular m" "length p = length m"
  shows "gauss (length m) (zip m (matvec m p)) = Some p"
proof -
  have len: "length (matvec m p) = length m" by (simp add: matvec_def)
  from gauss_nonsingular [OF assms(1) len] obtain y
    where y: "gauss (length m) (zip m (matvec m p)) = Some y" by blast
  have "y = p"
    using gauss_unique [OF rows_of_length_zip assms(2) satisfies_forward y] assms(1)
    by (simp add: nonsingular_def)
  with y show ?thesis by simp
qed

lemma gauss_of_singular:
  assumes "singular m"
  shows "gauss (length m) (zip m b) = None"
proof -
  from assms obtain v where v: "length v = length m" "v \<noteq> replicate (length m) 0"
      "matvec m v = replicate (length m) 0"
    by (auto simp: singular_def)
  show ?thesis
    using gauss_singular [OF rows_of_length_zip v(1) v(2) kernel_zip_conv [OF v(3)]] assms
    by (simp add: singular_def)
qed

lemma square_not_ragged: "is_square m \<Longrightarrow> \<not> is_ragged m"
  by (cases m) (auto simp: is_square_def is_ragged_def list_all_iff)

text \<open>
  C5. For a nonsingular square matrix \<open>m\<close> and any vector \<open>p\<close> of its size (so also any
  population vector summing to 1), correcting the prediction \<open>m @ p\<close> with \<open>m\<close> returns
  \<open>p\<close>: the call does not raise and the result is exactly \<open>p\<close> over the reals.
\<close>

theorem correct_population_left_inverse:
  "nonsingular m \<Longrightarrow> length p = length m \<Longrightarrow>
   correct_population (Vector (matvec m p)) m = Inr (Vector p)"
proof -
  assume ns: "nonsingular m" and len: "length p = length m"
  let ?n = "length m"
  let ?flat = "map (\<lambda>x. [x]) (matvec m p)"
  have sq: "is_square m" using ns by (simp add: nonsingular_def)
  then have ne: "m \<noteq> []" by (simp add: is_square_def)
  have fl: "flat_data (Vector (matvec m p)) = Inr ?flat"
    using ne by (simp add: flat_data_def matvec_def)
  have hd: "length (hd ?flat) = 1"
    using ne by (cases m) (simp_all add: matvec_def)
  have col: "column_of ?flat 0 = matvec m p"
    by (simp add: column_of_def comp_def)
  have lmv: "length (matvec m p) = ?n" by (simp add: matvec_def)
  have fac: "gauss ?n (zip m (replicate ?n 0)) \<noteq> None"
    using gauss_nonsingular [OF ns, of "replicate ?n 0"] by auto
  have "solve m ?flat 1 = Inr (map (\<lambda>i. [p ! i]) [0..<?n])"
    using sq fac gauss_forward [OF ns len] lmv square_not_ragged [OF sq]
    by (simp add: solve_def Let_def col)
  moreover have "concat (map (\<lambda>i. [p ! i]) [0..<?n]) = p"
    using len map_nth [of p] by simp
  ultimately show ?thesis
    by (simp add: correct_population_def fl hd and_then_def reshape_like_def)
qed

theorem correct_population_left_inverse_witness:
  "nonsingular [[95 / 100, 5 / 100], [5 / 100, 95 / 100]]
   \<and> correct_population (Vector (matvec [[95 / 100, 5 / 100], [5 / 100, 95 / 100]] [3 / 10, 7 / 10]))
        [[95 / 100, 5 / 100], [5 / 100, 95 / 100]] = Inr (Vector [3 / 10, 7 / 10])"
proof -
  let ?m = "[[95 / 100, 5 / 100], [5 / 100, 95 / 100 :: real]]"
  have ns: "nonsingular ?m"
    unfolding nonsingular_def
  proof (intro conjI allI impI)
    show "is_square ?m" by (simp add: is_square_def)
  next
    fix v :: "real list"
    assume a: "length v = length ?m \<and> matvec ?m v = replicate (length ?m) 0"
    then obtain x y where v: "v = [x, y]"
      by (cases v; cases "tl v"; cases "tl (tl v)") auto
    from a v have "95 / 100 * x + 5 / 100 * y = 0" "5 / 100 * x + 95 / 100 * y = 0"
      by (simp_all add: matvec_def numeral_2_eq_2)
    then have "x = 0 \<and> y = 0" by argo
    then show "v = replicate (length ?m) 0" using v by (simp add: numeral_2_eq_2)
  qed
  show ?thesis
    using correct_population_left_inverse [OF ns, of "[3 / 10, 7 / 10]"] ns by simp
qed

section \<open>Singular and ill-conditioned correction matrices\<close>


















section \<open>The most distant pair\<close>

lemma step_inv: "unbound_inv st \<Longrightarrow> unbound_inv (distant_step i st j)"
  by (auto simp: unbound_inv_def distant_step_def Let_def)

lemma step_None:
  "unbound_inv st \<Longrightarrow>
   snd (distant_step i st j) = None \<longleftrightarrow> snd st = None \<and> \<not> 0 < norm_diff i j"
  by (auto simp: unbound_inv_def distant_step_def Let_def)

lemma step_bound:
  "unbound_inv st \<Longrightarrow> bound_ok pts st \<Longrightarrow> i \<in> set pts \<Longrightarrow> j \<in> set pts \<Longrightarrow>
   bound_ok pts (distant_step i st j)"
  by (auto simp: unbound_inv_def bound_ok_def distant_step_def Let_def split: option.splits)

lemma inner_loop:
  "unbound_inv st \<Longrightarrow> bound_ok pts st \<Longrightarrow> i \<in> set pts \<Longrightarrow> set js \<subseteq> set pts \<Longrightarrow>
   unbound_inv (foldl (distant_step i) st js)
   \<and> bound_ok pts (foldl (distant_step i) st js)
   \<and> (snd (foldl (distant_step i) st js) = None
        \<longleftrightarrow> snd st = None \<and> (\<forall>j\<in>set js. \<not> 0 < norm_diff i j))"
proof (induction js arbitrary: st)
  case Nil
  then show ?case by simp
next
  case (Cons j js)
  have a: "unbound_inv (distant_step i st j)"
    using Cons.prems by (simp add: step_inv)
  have b: "bound_ok pts (distant_step i st j)"
    using Cons.prems by (simp add: step_bound)
  show ?case
    using Cons.IH [OF a b] Cons.prems step_None [of st i j] by auto
qed

lemma outer_loop:
  "unbound_inv st \<Longrightarrow> bound_ok pts st \<Longrightarrow> set is \<subseteq> set pts \<Longrightarrow>
   unbound_inv (foldl (\<lambda>st i. foldl (distant_step i) st pts) st is)
   \<and> bound_ok pts (foldl (\<lambda>st i. foldl (distant_step i) st pts) st is)
   \<and> (snd (foldl (\<lambda>st i. foldl (distant_step i) st pts) st is) = None
        \<longleftrightarrow> snd st = None \<and> (\<forall>i\<in>set is. \<forall>j\<in>set pts. \<not> 0 < norm_diff i j))"
proof (induction "is" arbitrary: st)
  case Nil
  then show ?case by simp
next
  case (Cons i "is")
  have i: "i \<in> set pts" using Cons.prems by simp
  note inner = inner_loop [OF Cons.prems(1) Cons.prems(2) i subset_refl]
  show ?case
    using Cons.IH [of "foldl (distant_step i) st pts"] inner Cons.prems by auto
qed

lemma distant_loop_result:
  "bound_ok pts (distant_loop pts)
   \<and> (snd (distant_loop pts) = None
        \<longleftrightarrow> (\<forall>i\<in>set pts. \<forall>j\<in>set pts. \<not> 0 < norm_diff i j))"
  using outer_loop [of "(0, None)" pts pts]
  by (simp add: distant_loop_def unbound_inv_def bound_ok_def)

lemma norm_diff_self: "norm_diff p p = 0"
proof -
  have "map2 (-) p p = map (\<lambda>x. 0) p"
    by (induction p) auto
  then show ?thesis by (simp add: norm_diff_def comp_def)
qed

text \<open>
  C10. \<open>find_most_distant_points\<close> returns a pair exactly when two input points are at a
  strictly positive distance, and the pair it returns is such a pair of input points.
  Otherwise, and so whenever all the points are identical (a single point, or none), the
  names are still unbound at the \<open>return\<close> and the call raises UnboundLocalError; the
  error passes through \<open>autorotate_IQ\<close> when the fitted means are all identical.
\<close>

theorem find_most_distant_points_bound:
  "(if \<exists>i\<in>set pts. \<exists>j\<in>set pts. 0 < norm_diff i j
    then \<exists>p q. find_most_distant_points pts = Inr (p, q)
                \<and> p \<in> set pts \<and> q \<in> set pts \<and> 0 < norm_diff p q
    else find_most_distant_points pts = Inl UnboundLocalError)
   \<and> ((\<forall>i\<in>set pts. \<forall>j\<in>set pts. i = j) \<longrightarrow>
        find_most_distant_points pts = Inl UnboundLocalError)
   \<and> (gmm_fit fitter d n = Inr (pts, covs) \<and> (\<forall>i\<in>set pts. \<forall>j\<in>set pts. i = j) \<longrightarrow>
        autorotate_IQ fitter d n = Inl UnboundLocalError)"
proof -
  note r = distant_loop_result [of pts]
  have A: "find_most_distant_points pts = Inl UnboundLocalError"
    if "\<forall>i\<in>set pts. \<forall>j\<in>set pts. \<not> 0 < norm_diff i j"
    using r that by (simp add: find_most_distant_points_def)
  have B: "\<exists>p q. find_most_distant_points pts = Inr (p, q)
                \<and> p \<in> set pts \<and> q \<in> set pts \<and> 0 < norm_diff p q"
    if "\<exists>i\<in>set pts. \<exists>j\<in>set pts. 0 < norm_diff i j"
  proof -
    from r that obtain p q where s: "snd (distant_loop pts) = Some (p, q)"
      by (cases "snd (distant_loop pts)") auto
    with r show ?thesis
      by (auto simp: find_most_distant_points_def bound_ok_def)
  qed
  have C: "find_most_distant_points pts = Inl UnboundLocalError"
    if "\<forall>i\<in>set pts. \<forall>j\<in>set pts. i = j"
    using that by (intro A) (auto simp: norm_diff_self)
  have D: "autorotate_IQ fitter d n = Inl UnboundLocalError"
    if "gmm_fit fitter d n = Inr (pts, covs)" "\<forall>i\<in>set pts. \<forall>j\<in>set pts. i = j"
    using that C by (simp add: autorotate_IQ_def and_then_def)
  show ?thesis using A B C D by auto
qed


theorem find_most_distant_points_bound_witness:
  "(\<exists>p q. find_most_distant_points [[0, 0], [3, 4]] = Inr (p, q) \<and> 0 < norm_diff p q)
   \<and> find_most_distant_points [[1, 2]] = Inl UnboundLocalError
   \<and> autorotate_IQ same_means_fit [[0, 1], [2, 3]] 2 = Inl UnboundLocalError"
proof -
  have pos: "0 < norm_diff [0, 0] [3, 4]"
    by (simp add: norm_diff_def)
  have fit: "gmm_fit same_means_fit [[0, 1], [2, 3]] 2 = Inr ([[1, 2], [1, 2]], [1, 1])"
    by code_simp
  have 1: "\<exists>p q. find_most_distant_points [[0, 0], [3, 4]] = Inr (p, q) \<and> 0 < norm_diff p q"
    using find_most_distant_points_bound [of "[[0, 0], [3, 4]]" same_means_fit "[]" 0 "[]"] pos
    by (auto split: if_splits)
  have 2: "find_most_distant_points [[1, 2]] = Inl UnboundLocalError"
    using find_most_distant_points_bound [of "[[1, 2]]" same_means_fit "[]" 0 "[]"]
    by simp
  have 3: "autorotate_IQ same_means_fit [[0, 1], [2, 3]] 2 = Inl UnboundLocalError"
    using find_most_distant_points_bound
            [of "[[1, 2], [1, 2]]" same_means_fit "[[0, 1], [2, 3]]" 2 "[1, 1]"] fit
    by simp
  show ?thesis using 1 2 3 by simp
qed

section \<open>Readout fidelity\<close>

lemma sum_list_tl_nth:
  "xs \<noteq> [] \<Longrightarrow> sum_list (tl xs) = (\<Sum>j = 1..<length xs. xs ! j)"
proof -
  assume "xs \<noteq> []"
  then obtain x r where xs: "xs = x # r" by (cases xs) auto
  have "sum_list r = (\<Sum>j = 0..<length r. r ! j)"
    by (simp add: sum_list_sum_nth)
  also have "\<dots> = (\<Sum>j = 1..<Suc (length r). (x # r) ! j)"
    using sum.shift_bounds_nat_ivl [of "\<lambda>j. (x # r) ! j" 0 1 "length r"] by simp
  finally show ?thesis by (simp add: xs)
qed

text \<open>
  C7. For a confusion matrix with at least two rows and at least two columns the fidelity is
  \<open>(1 + M[0,0] - \<Sum> M[0,1:]) / 2\<close>, and the matrix \<open>[[0.95, 0.05], [0.05, 0.95]]\<close> scores
  \<open>0.95\<close>.
\<close>

theorem get_readout_fidelity_formula:
  "(2 \<le> length M \<and> 2 \<le> length (M ! 0) \<longrightarrow>
      get_readout_fidelity M =
        Inr ((1 + M ! 0 ! 0 - (\<Sum>j = 1..<length (M ! 0). M ! 0 ! j)) / 2))
   \<and> get_readout_fidelity [[95 / 100, 5 / 100], [5 / 100, 95 / 100]] = Inr (95 / 100)"
proof (intro conjI impI)
  assume h: "2 \<le> length M \<and> 2 \<le> length (M ! 0)"
  then obtain r0 rs where M: "M = r0 # rs" by (cases M) auto
  with h obtain m00 rest where r0: "r0 = m00 # rest" by (cases r0) auto
  have "sum_list rest = (\<Sum>j = 1..<length r0. r0 ! j)"
    using sum_list_tl_nth [of r0] by (simp add: r0)
  then show "get_readout_fidelity M =
        Inr ((1 + M ! 0 ! 0 - (\<Sum>j = 1..<length (M ! 0). M ! 0 ! j)) / 2)"
    by (simp add: get_readout_fidelity_def M r0)
next
  show "get_readout_fidelity [[95 / 100, 5 / 100], [5 / 100, 95 / 100]] = Inr (95 / 100)"
    by (simp add: get_readout_fidelity_def)
qed

theorem get_readout_fidelity_formula_witness:
  "2 \<le> length [[9 / 10, 1 / 10, 0], [1 / 10, 8 / 10, 1 / 10 :: real]]
   \<and> get_readout_fidelity [[9 / 10, 1 / 10, 0], [1 / 10, 8 / 10, 1 / 10]] = Inr (9 / 10)"
  using get_readout_fidelity_formula [of "[[9 / 10, 1 / 10, 0], [1 / 10, 8 / 10, 1 / 10]]"]
  by (simp add: eval_nat_numeral)

section \<open>The caller's data\<close>

lemma rotate_IQ_mem_frame:
  "unchanged h (rotate_IQ_mem h a angle) \<and> fresh_result h (rotate_IQ_mem h a angle)
   \<and> copied_first h a (rotate_IQ_mem h a angle)"
  by (auto simp: rotate_IQ_mem_def np_array_def alloc_def unchanged_def fresh_result_def
      copied_first_def Let_def nth_append split: obj.splits sum.splits)

lemma correct_population_mem_frame:
  "unchanged h (correct_population_mem h a m) \<and> fresh_result h (correct_population_mem h a m)
   \<and> copied_first h a (correct_population_mem h a m)"
  by (auto simp: correct_population_mem_def np_array_def alloc_def unchanged_def
      fresh_result_def copied_first_def Let_def nth_append split: obj.splits sum.splits)

lemma normalize_population_mem_frame:
  "unchanged h (normalize_population_mem h a n ax msk)
   \<and> fresh_result h (normalize_population_mem h a n ax msk)"
  by (auto simp: normalize_population_mem_def masked_view_def alloc_def unchanged_def
      fresh_result_def Let_def nth_append split: obj.splits sum.splits)

lemma gmm_fit_mem_frame:
  "unchanged h (gmm_fit_mem lib h a n) \<and> fresh_result h (gmm_fit_mem lib h a n)
   \<and> copied_first h a (gmm_fit_mem lib h a n)"
  by (auto simp: gmm_fit_mem_def np_array_def alloc_def unchanged_def overwrite_def
      fresh_result_def copied_first_def Let_def nth_append split: obj.splits sum.splits prod.splits)

lemma gmm_predict_mem_frame:
  "unchanged h (gmm_predict_mem lib h a ms cs) \<and> fresh_result h (gmm_predict_mem lib h a ms cs)
   \<and> copied_first h a (gmm_predict_mem lib h a ms cs)"
  by (auto simp: gmm_predict_mem_def np_array_def alloc_def unchanged_def overwrite_def
      fresh_result_def copied_first_def Let_def nth_append split: obj.splits sum.splits prod.splits)

text \<open>
  C9, amended. Each of the five processing functions leaves every object of the caller as
  it was, the input among them, and returns a new array. \<open>rotate_IQ\<close>, \<open>gmm_fit\<close>,
  \<open>gmm_predict\<close> and \<open>correct_population\<close> begin by copying the input with \<open>np.array\<close>, and
  what the library may write goes to that copy. For \<open>normalize_population\<close> only the first
  two hold.
\<close>

theorem processing_leaves_input_unchanged:
  "unchanged h (rotate_IQ_mem h a angle) \<and> fresh_result h (rotate_IQ_mem h a angle)
   \<and> copied_first h a (rotate_IQ_mem h a angle)
   \<and> unchanged h (gmm_fit_mem lib h a n) \<and> fresh_result h (gmm_fit_mem lib h a n)
   \<and> copied_first h a (gmm_fit_mem lib h a n)
   \<and> unchanged h (gmm_predict_mem lib h a means covs)
   \<and> fresh_result h (gmm_predict_mem lib h a means covs)
   \<and> copied_first h a (gmm_predict_mem lib h a means covs)
   \<and> unchanged h (correct_population_mem h a m)
   \<and> fresh_result h (correct_population_mem h a m)
   \<and> copied_first h a (correct_population_mem h a m)
   \<and> unchanged h (normalize_population_mem h a n_levels axis msk)
   \<and> fresh_result h (normalize_population_mem h a n_levels axis msk)"
  using rotate_IQ_mem_frame [of h a angle] gmm_fit_mem_frame [of h lib a n]
    gmm_predict_mem_frame [of h lib a means covs] correct_population_mem_frame [of h a m]
    normalize_population_mem_frame [of h a n_levels axis msk]
  by simp

theorem processing_leaves_input_unchanged_witness:
  "take 4 (fst (gmm_fit_mem rude_sklearn demo_store 1 2)) = demo_store
   \<and> take 4 (fst (normalize_population_mem demo_store 0 2 0 None)) = demo_store
   \<and> origin (fst (rotate_IQ_mem demo_store 1 (pi / 2)) ! 4) = Copy_of 1"
proof -
  have len: "length demo_store = 4"
    by (simp add: demo_store_def)
  show ?thesis
    using processing_leaves_input_unchanged
            [of demo_store 1 "pi / 2" rude_sklearn 2 "[]" "[]" "[]" 2 0 None]
          processing_leaves_input_unchanged
            [of demo_store 0 0 rude_sklearn 2 "[]" "[]" "[]" 2 0 None]
    by (simp add: unchanged_def copied_first_def len)
qed

text \<open>
  On the docstring's labels, with a library that wipes the array it is handed: the labels
  and the IQ data of the caller survive both calls.
\<close>

lemma processing_on_demo_store:
  "take 4 (fst (gmm_fit_mem rude_sklearn demo_store 1 2)) = demo_store
   \<and> map origin (fst (gmm_fit_mem rude_sklearn demo_store 1 2))
       = [Given, Given, Given, Given, Copy_of 1, Computed]
   \<and> take 4 (fst (normalize_population_mem demo_store 0 2 0 None)) = demo_store
   \<and> map origin (fst (normalize_population_mem demo_store 0 2 0 None))
       = [Given, Given, Given, Given, View_of 0, Computed]"
  by (simp add: gmm_fit_mem_def normalize_population_mem_def np_array_def masked_view_def
      alloc_def overwrite_def demo_store_def given_def rude_sklearn_def same_means_fit_def
      reshape_2_def Let_def normalize_population_def)

text \<open>
  C9 as stated fails for \<open>normalize_population\<close>: the first object it creates is a masked
  view of the caller's array, not a copy made by \<open>np.array\<close>.
\<close>

theorem normalize_population_does_not_copy:
  "\<not> copied_first demo_store 0 (normalize_population_mem demo_store 0 2 0 None)
   \<and> origin (fst (normalize_population_mem demo_store 0 2 0 None) ! 4) = View_of 0
   \<and> content (fst (normalize_population_mem demo_store 0 2 0 None) ! 4) = Masked_array 0 None"
  by (simp add: normalize_population_mem_def masked_view_def alloc_def copied_first_def
      demo_store_def given_def Let_def normalize_population_def split: sum.splits)

end
